theory Spec2Isabelle
  imports Main "HOL-Library.Multiset"
begin

section \<open>Ledger store: the tables of utils/migrate.js\<close>

text \<open>
  Identifiers are the UUIDs the database generates; money is \<^verbatim>\<open>DECIMAL(15,2)\<close>, kept here as
  the number of minor units (hundredths), so 500.00 is 50000, and the amount of a request is
  taken in the same unit. Timestamps are the values of \<^verbatim>\<open>CURRENT_TIMESTAMP\<close>.
\<close>

type_synonym uuid = nat
type_synonym money = int
type_synonym timestamp = nat

record user_row =
  u_id :: uuid
  u_email :: string
  u_name :: string
  u_phone :: string
  u_is_active :: bool

record wallet_row =
  w_user_id :: uuid
  w_balance :: money

record transaction_row =
  t_id :: uuid
  t_sender_id :: "uuid option"
  t_recipient_id :: "uuid option"
  t_amount :: money
  t_transaction_type :: string
  t_status :: string
  t_payment_method :: "string option"
  t_note :: "string option"
  t_reference_id :: string
  t_created_at :: timestamp

record database =
  users :: "user_row list"
  wallets :: "wallet_row list"
  transactions :: "transaction_row list"

text \<open>The errors a statement can raise, and the two ways a handler leaves its \<^verbatim>\<open>try\<close> block
  early: an exception (caught by \<^verbatim>\<open>catch\<close>), or a \<^verbatim>\<open>return res.status(..)\<close>.\<close>

datatype pg_error =
  connection_failure | check_violation | unique_violation | foreign_key_violation
  | numeric_overflow | invalid_text_representation

datatype early = thrown_pg pg_error | thrown_js string | replied nat string

type_synonym http_error = "nat \<times> string"

subsection \<open>Identifiers as text\<close>

text \<open>JavaScript holds an identifier as text. The database writes a UUID as 32 lower-case
  hexadecimal digits in groups of 8, 4, 4, 4 and 12, which is the text of \<^verbatim>\<open>req.user.id\<close>;
  a UUID is the number its digits denote.\<close>

definition hex_digit :: "nat \<Rightarrow> char" where
  "hex_digit d = ''0123456789abcdef'' ! d"

definition uuid_out :: "uuid \<Rightarrow> string" where
  "uuid_out u =
     (let digit = (\<lambda>i. hex_digit (u div 16 ^ i mod 16))
      in map digit [31, 30, 29, 28, 27, 26, 25, 24] @ ''-'' @
         map digit [23, 22, 21, 20] @ ''-'' @
         map digit [19, 18, 17, 16] @ ''-'' @
         map digit [15, 14, 13, 12] @ ''-'' @
         map digit [11, 10, 9, 8, 7, 6, 5, 4, 3, 2, 1, 0])"

text \<open>The database reads a text parameter compared with a UUID column as a UUID. The
  validator \<^verbatim>\<open>isUUID()\<close> lets through texts of the form 8-4-4-4-12 with the digits a to f
  in either case, and the database reads such a text as the number its digits denote. Any
  other text is taken to make the statement fail.\<close>

definition hex_value :: "char \<Rightarrow> nat option" where
  "hex_value c =
     map_of (zip ''0123456789abcdefABCDEF''
               [0, 1, 2, 3, 4, 5, 6, 7, 8, 9, 10, 11, 12, 13, 14, 15, 10, 11, 12, 13, 14, 15]) c"

fun hex_number :: "nat \<Rightarrow> string \<Rightarrow> nat option" where
  "hex_number acc [] = Some acc"
| "hex_number acc (c # cs) =
     (case hex_value c of None \<Rightarrow> None | Some v \<Rightarrow> hex_number (16 * acc + v) cs)"

definition uuid_in :: "string \<Rightarrow> uuid option" where
  "uuid_in t =
     (if length t = 36 \<and> t ! 8 = CHR ''-'' \<and> t ! 13 = CHR ''-'' \<and> t ! 18 = CHR ''-'' \<and>
         t ! 23 = CHR ''-''
      then hex_number 0 (take 8 t @ take 4 (drop 9 t) @ take 4 (drop 14 t) @
                         take 4 (drop 19 t) @ drop 24 t)
      else None)"

subsection \<open>Statements\<close>

text \<open>\<^verbatim>\<open>DECIMAL(15,2)\<close>: at most 13 digits before the point.\<close>

definition numeric_15_2 :: "money \<Rightarrow> bool" where
  "numeric_15_2 v \<longleftrightarrow> \<bar>v\<bar> < 10 ^ 15"

definition references_user :: "database \<Rightarrow> uuid option \<Rightarrow> bool" where
  "references_user d r =
     (case r of None \<Rightarrow> True | Some u \<Rightarrow> u \<in> set (map u_id (users d)))"

text \<open>\<^verbatim>\<open>INSERT INTO transactions\<close>: the column type and \<^verbatim>\<open>CHECK (amount > 0)\<close>, the primary
  key, \<^verbatim>\<open>reference_id VARCHAR(100) UNIQUE\<close>, and the two references to users.\<close>

definition insert_transaction :: "database \<Rightarrow> transaction_row \<Rightarrow> pg_error + database" where
  "insert_transaction d t =
     (if \<not> numeric_15_2 (t_amount t) then Inl numeric_overflow
      else if t_amount t \<le> 0 then Inl check_violation
      else if t_id t \<in> set (map t_id (transactions d)) then Inl unique_violation
      else if t_reference_id t \<in> set (map t_reference_id (transactions d))
        then Inl unique_violation
      else if references_user d (t_sender_id t) \<and> references_user d (t_recipient_id t)
        then Inr (d\<lparr>transactions := transactions d @ [t]\<rparr>)
      else Inl foreign_key_violation)"

text \<open>\<^verbatim>\<open>SELECT balance FROM wallets WHERE user_id = $1\<close>\<close>

definition select_wallet :: "database \<Rightarrow> uuid \<Rightarrow> wallet_row list" where
  "select_wallet d uid = filter (\<lambda>w. w_user_id w = uid) (wallets d)"

text \<open>\<^verbatim>\<open>UPDATE wallets SET balance = balance + $1 WHERE user_id = $2 RETURNING balance\<close>, under
  the column type and \<^verbatim>\<open>CHECK (balance >= 0)\<close>. It returns the new table and the updated rows.\<close>

definition updated_wallets :: "database \<Rightarrow> uuid \<Rightarrow> money \<Rightarrow> wallet_row list" where
  "updated_wallets d uid delta =
     map (\<lambda>w. if w_user_id w = uid then w\<lparr>w_balance := w_balance w + delta\<rparr> else w)
       (wallets d)"

definition update_balance ::
  "database \<Rightarrow> uuid \<Rightarrow> money \<Rightarrow> pg_error + (database \<times> wallet_row list)" where
  "update_balance d uid delta =
     (let rows = filter (\<lambda>w. w_user_id w = uid) (updated_wallets d uid delta)
      in if list_ex (\<lambda>w. \<not> numeric_15_2 (w_balance w)) rows then Inl numeric_overflow
         else if list_ex (\<lambda>w. w_balance w < 0) rows then Inl check_violation
         else Inr (d\<lparr>wallets := updated_wallets d uid delta\<rparr>, rows))"

text \<open>\<^verbatim>\<open>INSERT INTO wallets (user_id, balance)\<close>\<close>

definition insert_wallet :: "database \<Rightarrow> wallet_row \<Rightarrow> pg_error + database" where
  "insert_wallet d w =
     (if \<not> numeric_15_2 (w_balance w) then Inl numeric_overflow
      else if w_balance w < 0 then Inl check_violation
      else if w_user_id w \<in> set (map u_id (users d))
        then Inr (d\<lparr>wallets := wallets d @ [w]\<rparr>)
      else Inl foreign_key_violation)"

text \<open>\<^verbatim>\<open>INSERT INTO users\<close>: primary key, unique email, unique phone.\<close>

definition insert_user :: "database \<Rightarrow> user_row \<Rightarrow> pg_error + database" where
  "insert_user d u =
     (if u_id u \<in> set (map u_id (users d)) then Inl unique_violation
      else if u_email u \<in> set (map u_email (users d)) then Inl unique_violation
      else if u_phone u \<in> set (map u_phone (users d)) then Inl unique_violation
      else Inr (d\<lparr>users := users d @ [u]\<rparr>))"

section \<open>Balance cache and the request environment\<close>

text \<open>A cache entry is the value with the time at which it expires (\<^verbatim>\<open>setEx\<close>).\<close>

type_synonym redis = "uuid \<Rightarrow> (money \<times> timestamp) option"

definition redis_get :: "redis \<Rightarrow> uuid \<Rightarrow> timestamp \<Rightarrow> money option" where
  "redis_get c k t =
     (case c k of None \<Rightarrow> None | Some (v, expiry) \<Rightarrow> if t < expiry then Some v else None)"

definition redis_setEx :: "redis \<Rightarrow> uuid \<Rightarrow> nat \<Rightarrow> money \<Rightarrow> timestamp \<Rightarrow> redis" where
  "redis_setEx c k ttl v t = c(k \<mapsto> (v, t + ttl))"

definition redis_del :: "redis \<Rightarrow> uuid \<Rightarrow> redis" where
  "redis_del c k = c(k := None)"

text \<open>The cache is kept here by user; the key of a user's entry is \<^verbatim>\<open>balance:\<close> followed by
  the text of the id. Deleting the key made from a given text removes the entry of the user
  whose id is written that way, and no entry when no id is.\<close>

definition redis_del_text :: "redis \<Rightarrow> string \<Rightarrow> redis" where
  "redis_del_text c t = (\<lambda>u. if uuid_out u = t then None else c u)"

record state =
  db :: database
  cache :: redis

text \<open>The places where a handler calls the database or the cache.\<close>

datatype call =
  CONNECT | BEGIN | COMMIT
  | SELECT_wallet | SELECT_sender_wallet | SELECT_recipient | SELECT_existing_user
  | SELECT_transactions | SELECT_count | SELECT_transaction
  | INSERT_transaction | INSERT_send | INSERT_receive | INSERT_user | INSERT_wallet
  | UPDATE_wallet | UPDATE_sender | UPDATE_recipient
  | REDIS_get | REDIS_setEx | REDIS_del

text \<open>What a request takes from outside the program: the clock, the identifiers the database
  generates for new rows, the random part of the reference id, and which calls fail because
  the database or the cache cannot be reached.\<close>

record env =
  now :: timestamp
  new_id :: uuid
  new_id2 :: uuid
  nonce :: string
  outage :: "call \<Rightarrow> bool"

definition query :: "env \<Rightarrow> call \<Rightarrow> pg_error + 'a \<Rightarrow> early + 'a" where
  "query e c r =
     (if outage e c then Inl (thrown_pg connection_failure)
      else case r of Inl x \<Rightarrow> Inl (thrown_pg x) | Inr v \<Rightarrow> Inr v)"

fun await :: "early + 'a \<Rightarrow> ('a \<Rightarrow> early + 'b) \<Rightarrow> early + 'b" where
  "await (Inl x) k = Inl x"
| "await (Inr v) k = k v"

section \<open>Wallet routes (routes/wallet.js)\<close>

subsection \<open>GET /balance\<close>

record balance_data =
  b_balance :: money
  b_lastUpdated :: timestamp
  b_cached :: bool

text \<open>The cached string is the one \<^verbatim>\<open>balance.toString()\<close> wrote, which is never empty, so
  \<^verbatim>\<open>if (cachedBalance)\<close> asks whether the key is present and has not expired.\<close>

definition get_balance :: "env \<Rightarrow> state \<Rightarrow> uuid \<Rightarrow> (http_error + balance_data) \<times> state" where
  "get_balance e s userId =
     (if outage e REDIS_get then (Inl (500, ''Failed to fetch balance''), s)
      else case redis_get (cache s) userId (now e) of
        Some cachedBalance \<Rightarrow>
          (Inr \<lparr>b_balance = cachedBalance, b_lastUpdated = now e, b_cached = True\<rparr>, s)
      | None \<Rightarrow>
          if outage e SELECT_wallet then (Inl (500, ''Failed to fetch balance''), s)
          else case select_wallet (db s) userId of
            [] \<Rightarrow> (Inl (404, ''Wallet not found''), s)
          | w # _ \<Rightarrow>
              if outage e REDIS_setEx then (Inl (500, ''Failed to fetch balance''), s)
              else (Inr \<lparr>b_balance = w_balance w, b_lastUpdated = now e, b_cached = False\<rparr>,
                    s\<lparr>cache := redis_setEx (cache s) userId 300 (w_balance w) (now e)\<rparr>))"

subsection \<open>POST /add-money\<close>

record add_money_data =
  a_transactionId :: uuid
  a_amount :: money
  a_newBalance :: money
  a_paymentMethod :: string
  a_referenceId :: string

definition add_money_row :: "env \<Rightarrow> uuid \<Rightarrow> money \<Rightarrow> string \<Rightarrow> transaction_row" where
  "add_money_row e userId amount paymentMethod =
     \<lparr>t_id = new_id e, t_sender_id = Some userId, t_recipient_id = None, t_amount = amount,
      t_transaction_type = ''add_money'', t_status = ''completed'',
      t_payment_method = Some paymentMethod, t_note = None,
      t_reference_id = ''ADD_'' @ nonce e, t_created_at = now e\<rparr>"

text \<open>The statements between \<^verbatim>\<open>BEGIN\<close> and \<^verbatim>\<open>COMMIT\<close>, on the transaction's own copy of the
  tables. \<^verbatim>\<open>walletResult.rows[0].balance\<close> throws a TypeError when no row was updated.\<close>

definition add_money_tx ::
  "env \<Rightarrow> database \<Rightarrow> uuid \<Rightarrow> money \<Rightarrow> string \<Rightarrow> early + (database \<times> add_money_data)" where
  "add_money_tx e d userId amount paymentMethod =
     await (query e BEGIN (Inr ())) (\<lambda>_.
     await (query e INSERT_transaction
             (insert_transaction d (add_money_row e userId amount paymentMethod))) (\<lambda>d1.
     await (query e UPDATE_wallet (update_balance d1 userId amount)) (\<lambda>(d2, rows).
       case rows of
         [] \<Rightarrow> Inl (thrown_js ''TypeError'')
       | w # _ \<Rightarrow>
           await (query e COMMIT (Inr ())) (\<lambda>_.
             Inr (d2, \<lparr>a_transactionId = new_id e, a_amount = amount,
                       a_newBalance = w_balance w, a_paymentMethod = paymentMethod,
                       a_referenceId = ''ADD_'' @ nonce e\<rparr>)))))"

text \<open>An exception inside the \<^verbatim>\<open>try\<close> block reaches \<^verbatim>\<open>catch\<close>: \<^verbatim>\<open>ROLLBACK\<close> and status 500.
  The cache entry is deleted after \<^verbatim>\<open>COMMIT\<close>, still inside the \<^verbatim>\<open>try\<close> block.\<close>

definition add_money ::
  "env \<Rightarrow> state \<Rightarrow> uuid \<Rightarrow> money \<Rightarrow> string \<Rightarrow> (http_error + add_money_data) \<times> state" where
  "add_money e s userId amount paymentMethod =
     (case add_money_tx e (db s) userId amount paymentMethod of
        Inl _ \<Rightarrow> (Inl (500, ''Failed to add money''), s)
      | Inr (d', data) \<Rightarrow>
          if outage e REDIS_del then (Inl (500, ''Failed to add money''), s\<lparr>db := d'\<rparr>)
          else (Inr data, \<lparr>db = d', cache = redis_del (cache s) userId\<rparr>))"

subsection \<open>POST /send-money\<close>

record send_money_body =
  body_recipientId :: string
  body_amount :: money
  body_note :: "string option"

record recipient_data =
  r_id :: uuid
  r_name :: string
  r_email :: string

record send_money_data =
  s_transactionId :: uuid
  s_amount :: money
  s_newBalance :: money
  s_recipient :: recipient_data
  s_note :: "string option"
  s_referenceId :: string

text \<open>\<^verbatim>\<open>SELECT id, name, email FROM users WHERE id = $1 AND is_active = true\<close>\<close>

definition select_active_user :: "database \<Rightarrow> uuid \<Rightarrow> user_row list" where
  "select_active_user d uid = filter (\<lambda>u. u_id u = uid \<and> u_is_active u) (users d)"

text \<open>The row of a transfer; \<open>recipient\<close> is the UUID the database reads from the text
  \<^verbatim>\<open>recipientId\<close>.\<close>

definition transfer_row ::
  "env \<Rightarrow> uuid \<Rightarrow> uuid \<Rightarrow> uuid \<Rightarrow> send_money_body \<Rightarrow> string \<Rightarrow> transaction_row" where
  "transfer_row e rowId senderId recipient body ty =
     \<lparr>t_id = rowId, t_sender_id = Some senderId, t_recipient_id = Some recipient,
      t_amount = body_amount body, t_transaction_type = ty, t_status = ''completed'',
      t_payment_method = None, t_note = body_note body,
      t_reference_id = ''SEND_'' @ nonce e, t_created_at = now e\<rparr>"

definition send_money_tx ::
  "env \<Rightarrow> database \<Rightarrow> uuid \<Rightarrow> send_money_body
     \<Rightarrow> early + (database \<times> wallet_row list \<times> user_row)" where
  "send_money_tx e d senderId body =
     await (query e BEGIN (Inr ())) (\<lambda>_.
     await (query e SELECT_sender_wallet (Inr (select_wallet d senderId))) (\<lambda>senderWallet.
       case senderWallet of
         [] \<Rightarrow> Inl (thrown_js ''Sender wallet not found'')
       | w # _ \<Rightarrow>
           if w_balance w < body_amount body then Inl (replied 400 ''Insufficient balance'')
           else
     await (query e SELECT_recipient
             (case uuid_in (body_recipientId body) of
                None \<Rightarrow> Inl invalid_text_representation
              | Some rid \<Rightarrow> Inr (rid, select_active_user d rid)))
       (\<lambda>(rid, recipient).
       case recipient of
         [] \<Rightarrow> Inl (replied 404 ''Recipient not found'')
       | r # _ \<Rightarrow>
     await (query e INSERT_send
             (insert_transaction d (transfer_row e (new_id e) senderId rid body ''send_money'')))
       (\<lambda>d1.
     await (query e INSERT_receive
             (insert_transaction d1
                (transfer_row e (new_id2 e) senderId rid body ''receive_money''))) (\<lambda>d2.
     await (query e UPDATE_sender (update_balance d2 senderId (- body_amount body)))
       (\<lambda>(d3, senderNewBalance).
     await (query e UPDATE_recipient (update_balance d3 rid (body_amount body)))
       (\<lambda>(d4, _).
     await (query e COMMIT (Inr ())) (\<lambda>_.
       Inr (d4, senderNewBalance, r)))))))))"

text \<open>The \<^verbatim>\<open>try\<close>, \<^verbatim>\<open>catch\<close> and \<^verbatim>\<open>finally\<close> blocks of the handler, run with a client taken
  from the pool. The self-transfer check \<^verbatim>\<open>senderId === recipientId\<close> compares two texts,
  the id of the authenticated user as the database wrote it and \<^verbatim>\<open>recipientId\<close> as the
  request gave it; it comes before \<^verbatim>\<open>BEGIN\<close>. The two early returns issue \<^verbatim>\<open>ROLLBACK\<close>
  themselves; every exception reaches \<^verbatim>\<open>catch\<close>, which issues \<^verbatim>\<open>ROLLBACK\<close> and answers 500.
  After \<^verbatim>\<open>COMMIT\<close> both cache keys are deleted and the response reads
  \<^verbatim>\<open>senderNewBalance.rows[0].balance\<close>. \<^verbatim>\<open>ROLLBACK\<close> and releasing the client are taken not
  to fail.\<close>

definition send_money ::
  "env \<Rightarrow> state \<Rightarrow> uuid \<Rightarrow> send_money_body \<Rightarrow> (http_error + send_money_data) \<times> state" where
  "send_money e s senderId body =
     (if uuid_out senderId = body_recipientId body
        then (Inl (400, ''Cannot send money to yourself''), s)
      else case send_money_tx e (db s) senderId body of
        Inl (replied code message) \<Rightarrow> (Inl (code, message), s)
      | Inl _ \<Rightarrow> (Inl (500, ''Failed to send money''), s)
      | Inr (d', senderNewBalance, r) \<Rightarrow>
          if outage e REDIS_del then (Inl (500, ''Failed to send money''), s\<lparr>db := d'\<rparr>)
          else
            let s' = \<lparr>db = d',
                      cache = redis_del_text (redis_del (cache s) senderId)
                                (body_recipientId body)\<rparr>
            in case senderNewBalance of
                 [] \<Rightarrow> (Inl (500, ''Failed to send money''), s')
               | w # _ \<Rightarrow>
                   (Inr \<lparr>s_transactionId = new_id e, s_amount = body_amount body,
                         s_newBalance = w_balance w,
                         s_recipient = \<lparr>r_id = u_id r, r_name = u_name r, r_email = u_email r\<rparr>,
                         s_note = body_note body, s_referenceId = ''SEND_'' @ nonce e\<rparr>, s'))"

subsection \<open>The two routes with their connection\<close>

text \<open>Both handlers begin with \<^verbatim>\<open>const client = await pool.connect()\<close>, before \<^verbatim>\<open>try\<close>. When
  no connection can be had the promise of the handler is rejected outside any \<^verbatim>\<open>catch\<close>:
  nothing is written and no response is sent, which is the reply \<open>None\<close>.\<close>

definition post_add_money ::
  "env \<Rightarrow> state \<Rightarrow> uuid \<Rightarrow> money \<Rightarrow> string
     \<Rightarrow> (http_error + add_money_data) option \<times> state" where
  "post_add_money e s userId amount paymentMethod =
     (if outage e CONNECT then (None, s)
      else (Some (fst (add_money e s userId amount paymentMethod)),
            snd (add_money e s userId amount paymentMethod)))"

definition post_send_money ::
  "env \<Rightarrow> state \<Rightarrow> uuid \<Rightarrow> send_money_body
     \<Rightarrow> (http_error + send_money_data) option \<times> state" where
  "post_send_money e s senderId body =
     (if outage e CONNECT then (None, s)
      else (Some (fst (send_money e s senderId body)), snd (send_money e s senderId body)))"

section \<open>Registration (routes/auth.js)\<close>

record register_data =
  g_id :: uuid
  g_email :: string
  g_name :: string
  g_phone :: string

definition register_tx ::
  "env \<Rightarrow> database \<Rightarrow> string \<Rightarrow> string \<Rightarrow> string \<Rightarrow> early + database" where
  "register_tx e d email name phone =
     await (query e BEGIN (Inr ())) (\<lambda>_.
     await (query e INSERT_user
             (insert_user d \<lparr>u_id = new_id e, u_email = email, u_name = name,
                              u_phone = phone, u_is_active = True\<rparr>)) (\<lambda>d1.
     await (query e INSERT_wallet
             (insert_wallet d1 \<lparr>w_user_id = new_id e, w_balance = 0\<rparr>)) (\<lambda>d2.
     await (query e COMMIT (Inr ())) (\<lambda>_. Inr d2))))"

definition register ::
  "env \<Rightarrow> state \<Rightarrow> string \<Rightarrow> string \<Rightarrow> string \<Rightarrow> (http_error + register_data) \<times> state" where
  "register e s email name phone =
     (if outage e SELECT_existing_user then (Inl (500, ''Registration failed''), s)
      else if list_ex (\<lambda>u. u_email u = email \<or> u_phone u = phone) (users (db s))
        then (Inl (409, ''User with this email or phone already exists''), s)
      else case register_tx e (db s) email name phone of
        Inl _ \<Rightarrow> (Inl (500, ''Registration failed''), s)
      | Inr d' \<Rightarrow>
          (Inr \<lparr>g_id = new_id e, g_email = email, g_name = name, g_phone = phone\<rparr>,
           s\<lparr>db := d'\<rparr>))"

section \<open>History routes (routes/transactions.js)\<close>

record party =
  p_name :: "string option"
  p_email :: "string option"

record transaction_view =
  v_id :: uuid
  v_type :: string
  v_amount :: money
  v_status :: string
  v_paymentMethod :: "string option"
  v_note :: "string option"
  v_referenceId :: string
  v_createdAt :: timestamp
  v_recipient :: "party option"
  v_sender :: "party option"

text \<open>\<^verbatim>\<open>LEFT JOIN users .. ON t.sender_id = sender.id\<close>: the name and email of the referenced
  user, or NULLs.\<close>

definition join_user :: "database \<Rightarrow> uuid option \<Rightarrow> party" where
  "join_user d r =
     (case r of
        None \<Rightarrow> \<lparr>p_name = None, p_email = None\<rparr>
      | Some uid \<Rightarrow>
          (case find (\<lambda>u. u_id u = uid) (users d) of
             None \<Rightarrow> \<lparr>p_name = None, p_email = None\<rparr>
           | Some u \<Rightarrow> \<lparr>p_name = Some (u_name u), p_email = Some (u_email u)\<rparr>))"

text \<open>The response object: \<^verbatim>\<open>recipient\<close> is spread in for a \<^verbatim>\<open>send_money\<close> row only, and
  \<^verbatim>\<open>sender\<close> for a \<^verbatim>\<open>receive_money\<close> row only.\<close>

definition format_transaction :: "database \<Rightarrow> transaction_row \<Rightarrow> transaction_view" where
  "format_transaction d tx =
     \<lparr>v_id = t_id tx, v_type = t_transaction_type tx, v_amount = t_amount tx,
      v_status = t_status tx, v_paymentMethod = t_payment_method tx, v_note = t_note tx,
      v_referenceId = t_reference_id tx, v_createdAt = t_created_at tx,
      v_recipient =
        (if t_transaction_type tx = ''send_money''
         then Some (join_user d (t_recipient_id tx)) else None),
      v_sender =
        (if t_transaction_type tx = ''receive_money''
         then Some (join_user d (t_sender_id tx)) else None)\<rparr>"

subsection \<open>GET /transactions/:id\<close>

definition get_transaction ::
  "env \<Rightarrow> database \<Rightarrow> uuid \<Rightarrow> uuid \<Rightarrow> http_error + transaction_view" where
  "get_transaction e d userId tid =
     (if outage e SELECT_transaction then Inl (500, ''Failed to fetch transaction'')
      else case filter (\<lambda>t. t_id t = tid \<and>
                          (t_sender_id t = Some userId \<or> t_recipient_id t = Some userId))
                  (transactions d) of
        [] \<Rightarrow> Inl (404, ''Transaction not found'')
      | tx # _ \<Rightarrow> Inr (format_transaction d tx))"

subsection \<open>GET /transactions\<close>

record transactions_query =
  q_page :: "int option"
  q_limit :: "int option"
  q_type :: "string option"

record pagination =
  pg_page :: int
  pg_limit :: int
  pg_total :: int
  pg_pages :: int
  pg_hasNext :: bool
  pg_hasPrev :: bool

record transactions_data =
  l_transactions :: "transaction_view list"
  l_pagination :: pagination

text \<open>\<^verbatim>\<open>parseInt(x) || dflt\<close>: a missing parameter parses to NaN, and NaN and 0 are falsy.\<close>

definition or_default :: "int option \<Rightarrow> int \<Rightarrow> int" where
  "or_default v dflt = (case v of None \<Rightarrow> dflt | Some n \<Rightarrow> if n = 0 then dflt else n)"

text \<open>The WHERE clause the handler assembles; \<^verbatim>\<open>if (type)\<close> is false for a missing or empty
  parameter, and a value other than the three known ones adds no condition.\<close>

definition where_clause :: "uuid \<Rightarrow> string option \<Rightarrow> transaction_row \<Rightarrow> bool" where
  "where_clause userId ty t \<longleftrightarrow>
     (t_sender_id t = Some userId \<or> t_recipient_id t = Some userId) \<and>
     (case ty of
        None \<Rightarrow> True
      | Some type \<Rightarrow>
          if type = [] then True
          else if type = ''sent''
            then t_sender_id t = Some userId \<and>
                 (t_transaction_type t = ''send_money'' \<or> t_transaction_type t = ''add_money'')
          else if type = ''received''
            then t_recipient_id t = Some userId \<and> t_transaction_type t = ''receive_money''
          else if type = ''add_money''
            then t_sender_id t = Some userId \<and> t_transaction_type t = ''add_money''
          else True)"

definition matching :: "database \<Rightarrow> uuid \<Rightarrow> string option \<Rightarrow> transaction_row list" where
  "matching d userId ty = filter (where_clause userId ty) (transactions d)"

text \<open>\<^verbatim>\<open>ORDER BY t.created_at DESC\<close> names one sort key. The server may return any sequence
  that holds exactly the selected rows with creation times descending; rows with equal
  creation times come in an order the statement does not fix.\<close>

definition order_by_created_at_desc ::
  "transaction_row list \<Rightarrow> transaction_row list \<Rightarrow> bool" where
  "order_by_created_at_desc rows ordered \<longleftrightarrow>
     mset ordered = mset rows \<and> sorted_wrt (\<lambda>a b. t_created_at b \<le> t_created_at a) ordered"

text \<open>\<^verbatim>\<open>Math.ceil(total / limit)\<close> for a positive limit.\<close>

definition ceil_div :: "int \<Rightarrow> int \<Rightarrow> int" where
  "ceil_div n limit = - ((- n) div limit)"

definition transactions_reply ::
  "database \<Rightarrow> int \<Rightarrow> int \<Rightarrow> int \<Rightarrow> transaction_row list \<Rightarrow> transactions_data" where
  "transactions_reply d page limit n rows =
     \<lparr>l_transactions = map (format_transaction d) rows,
      l_pagination = \<lparr>pg_page = page, pg_limit = limit, pg_total = n,
                      pg_pages = ceil_div n limit,
                      pg_hasNext = (page < ceil_div n limit), pg_hasPrev = (1 < page)\<rparr>\<rparr>"

text \<open>JavaScript's numbers hold the integers up to \<^verbatim>\<open>Number.MAX_SAFE_INTEGER\<close> exactly, and
  the database takes LIMIT and OFFSET as \<^verbatim>\<open>bigint\<close>.\<close>

definition max_safe_integer :: int where
  "max_safe_integer = 9007199254740991"

definition bigint_max :: int where
  "bigint_max = 9223372036854775807"

text \<open>The handler, as a relation between the request and its possible responses: the page is
  \<^verbatim>\<open>LIMIT limit OFFSET (page - 1) * limit\<close> of some admissible order. The server rejects a
  LIMIT or OFFSET that is negative or beyond \<^verbatim>\<open>bigint\<close>; an OFFSET of 2^64 or more is beyond
  it however the product was rounded. The page is described where page, limit and offset are
  at most \<^verbatim>\<open>Number.MAX_SAFE_INTEGER\<close>, so that \<^verbatim>\<open>parseInt\<close> and the product are exact; the
  relation says nothing of a request between the two bounds, where the numbers are rounded.\<close>

inductive get_transactions ::
  "env \<Rightarrow> database \<Rightarrow> uuid \<Rightarrow> transactions_query \<Rightarrow> http_error + transactions_data \<Rightarrow> bool"
  where
  page_query_fails:
    "outage e SELECT_transactions \<or> or_default (q_limit q) 20 < 0
       \<or> (or_default (q_page q) 1 - 1) * or_default (q_limit q) 20 < 0
       \<or> bigint_max < or_default (q_limit q) 20
       \<or> 2 ^ 64 \<le> (or_default (q_page q) 1 - 1) * or_default (q_limit q) 20
     \<Longrightarrow> get_transactions e d userId q (Inl (500, ''Failed to fetch transactions''))"
| count_query_fails:
    "outage e SELECT_count
     \<Longrightarrow> get_transactions e d userId q (Inl (500, ''Failed to fetch transactions''))"
| page:
    "\<not> outage e SELECT_transactions \<Longrightarrow> \<not> outage e SELECT_count
     \<Longrightarrow> limit = or_default (q_limit q) 20 \<Longrightarrow> page = or_default (q_page q) 1
     \<Longrightarrow> 0 \<le> limit \<Longrightarrow> 0 \<le> (page - 1) * limit
     \<Longrightarrow> order_by_created_at_desc (matching d userId (q_type q)) ordered
     \<Longrightarrow> page \<le> max_safe_integer \<and> limit \<le> max_safe_integer
           \<and> (page - 1) * limit \<le> max_safe_integer
     \<Longrightarrow> get_transactions e d userId q
           (Inr (transactions_reply d page limit (int (length (matching d userId (q_type q))))
                  (take (nat limit) (drop (nat ((page - 1) * limit)) ordered))))"

section \<open>Reachable states\<close>

text \<open>The system starts with empty tables and an empty cache; every request of the routes
  above, with any arguments and any environment, is a step.\<close>

definition initial :: state where
  "initial = \<lparr>db = \<lparr>users = [], wallets = [], transactions = []\<rparr>, cache = Map.empty\<rparr>"

inductive reachable :: "state \<Rightarrow> bool" where
  start: "reachable initial"
| by_register: "reachable s \<Longrightarrow> reachable (snd (register e s email name phone))"
| by_get_balance: "reachable s \<Longrightarrow> reachable (snd (get_balance e s userId))"
| by_add_money: "reachable s \<Longrightarrow> reachable (snd (add_money e s userId amount paymentMethod))"
| by_send_money: "reachable s \<Longrightarrow> reachable (snd (send_money e s senderId body))"

section \<open>Invariants\<close>

text \<open>\<^verbatim>\<open>CHECK (balance >= 0)\<close> holds of every wallet row.\<close>

definition nonneg_balances :: "database \<Rightarrow> bool" where
  "nonneg_balances d \<longleftrightarrow> list_all (\<lambda>w. 0 \<le> w_balance w) (wallets d)"

text \<open>A row of type \<^verbatim>\<open>add_money\<close> names its user as sender and has no recipient.\<close>

definition deposit_shaped :: "transaction_row \<Rightarrow> bool" where
  "deposit_shaped t \<longleftrightarrow>
     (if t_transaction_type t = ''add_money''
      then t_sender_id t \<noteq> None \<and> t_recipient_id t = None else True)"

section \<open>Example states\<close>

definition no_outage :: "call \<Rightarrow> bool" where
  "no_outage c = False"

definition request_env :: "timestamp \<Rightarrow> uuid \<Rightarrow> uuid \<Rightarrow> string \<Rightarrow> env" where
  "request_env t i j r = \<lparr>now = t, new_id = i, new_id2 = j, nonce = r, outage = no_outage\<rparr>"

definition alice :: user_row where
  "alice = \<lparr>u_id = 1, u_email = ''alice@example.in'', u_name = ''Alice'',
            u_phone = ''9000000001'', u_is_active = True\<rparr>"

definition bob :: user_row where
  "bob = \<lparr>u_id = 2, u_email = ''bob@example.in'', u_name = ''Bob'',
          u_phone = ''9000000002'', u_is_active = True\<rparr>"

definition deposit_row :: transaction_row where
  "deposit_row =
     \<lparr>t_id = 10, t_sender_id = Some 1, t_recipient_id = None, t_amount = 50000,
      t_transaction_type = ''add_money'', t_status = ''completed'',
      t_payment_method = Some ''UPI'', t_note = None,
      t_reference_id = ''ADD_300_k3x9'', t_created_at = 300\<rparr>"

text \<open>Alice and Bob have registered and Alice has deposited 500.00 by UPI.\<close>

definition funded :: state where
  "funded = \<lparr>db = \<lparr>users = [alice, bob],
                     wallets = [\<lparr>w_user_id = 1, w_balance = 50000\<rparr>,
                                \<lparr>w_user_id = 2, w_balance = 0\<rparr>],
                     transactions = [deposit_row]\<rparr>,
             cache = Map.empty\<rparr>"

text \<open>Alice sends Bob 200.00 with the note "lunch".\<close>

definition lunch :: send_money_body where
  "lunch = \<lparr>body_recipientId = ''00000000-0000-0000-0000-000000000002'',
            body_amount = 20000, body_note = Some ''lunch''\<rparr>"

text \<open>Alice, holding 500.00, tries to send Bob 600.00.\<close>

definition too_much :: send_money_body where
  "too_much = \<lparr>body_recipientId = ''00000000-0000-0000-0000-000000000002'',
               body_amount = 60000, body_note = None\<rparr>"

text \<open>Alice sends 10.00 to a user id that does not exist.\<close>

definition to_nobody :: send_money_body where
  "to_nobody = \<lparr>body_recipientId = ''00000000-0000-0000-0000-000000000003'',
                body_amount = 1000, body_note = None\<rparr>"

text \<open>An environment in which the database is lost at the last UPDATE of a transfer.\<close>

definition lost_at_credit :: env where
  "lost_at_credit = \<lparr>now = 400, new_id = 11, new_id2 = 12, nonce = ''400_q7m2'',
                      outage = (\<lambda>c. c = UPDATE_recipient)\<rparr>"

text \<open>The example state with Alice's balance cached until time 700.\<close>

definition cached_state :: state where
  "cached_state = funded\<lparr>cache := [1 \<mapsto> (50000, 700)]\<rparr>"

text \<open>Alice and Bob have registered; nothing else has happened.\<close>

definition registered :: state where
  "registered = \<lparr>db = \<lparr>users = [alice, bob],
                     wallets = [\<lparr>w_user_id = 1, w_balance = 0\<rparr>,
                                \<lparr>w_user_id = 2, w_balance = 0\<rparr>],
                     transactions = []\<rparr>,
             cache = Map.empty\<rparr>"

text \<open>What the history routes show of Alice's deposit.\<close>

definition deposit_view :: transaction_view where
  "deposit_view =
     \<lparr>v_id = 10, v_type = ''add_money'', v_amount = 50000, v_status = ''completed'',
      v_paymentMethod = Some ''UPI'', v_note = None, v_referenceId = ''ADD_300_k3x9'',
      v_createdAt = 300, v_recipient = None, v_sender = None\<rparr>"

text \<open>An environment in which only the cache can be read.\<close>

definition db_down :: env where
  "db_down = \<lparr>now = 500, new_id = 0, new_id2 = 0, nonce = [],
               outage = (\<lambda>c. c \<noteq> REDIS_get)\<rparr>"

text \<open>Two deposits of Alice that began in the same instant.\<close>

definition twin_a :: transaction_row where
  "twin_a = \<lparr>t_id = 20, t_sender_id = Some 1, t_recipient_id = None, t_amount = 10000,
      t_transaction_type = ''add_money'', t_status = ''completed'',
      t_payment_method = Some ''UPI'', t_note = None,
      t_reference_id = ''ADD_600_aaaa'', t_created_at = 600\<rparr>"

definition twin_b :: transaction_row where
  "twin_b = \<lparr>t_id = 21, t_sender_id = Some 1, t_recipient_id = None, t_amount = 20000,
      t_transaction_type = ''add_money'', t_status = ''completed'',
      t_payment_method = Some ''Card'', t_note = None,
      t_reference_id = ''ADD_600_bbbb'', t_created_at = 600\<rparr>"

definition tied :: state where
  "tied = \<lparr>db = \<lparr>users = [alice, bob],
                   wallets = [\<lparr>w_user_id = 1, w_balance = 30000\<rparr>,
                              \<lparr>w_user_id = 2, w_balance = 0\<rparr>],
                   transactions = [twin_a, twin_b]\<rparr>,
           cache = Map.empty\<rparr>"

definition one_per_page :: "int \<Rightarrow> transactions_query" where
  "one_per_page p = \<lparr>q_page = Some p, q_limit = Some 1, q_type = None\<rparr>"

text \<open>Fifteen deposits of Alice, one per instant.\<close>

definition nth_deposit :: "nat \<Rightarrow> transaction_row" where
  "nth_deposit i = \<lparr>t_id = 100 + i, t_sender_id = Some 1, t_recipient_id = None,
      t_amount = 100, t_transaction_type = ''add_money'', t_status = ''completed'',
      t_payment_method = Some ''UPI'', t_note = None,
      t_reference_id = ''ADD_'' @ replicate i (CHR ''x''), t_created_at = 1000 + i\<rparr>"

definition busy :: database where
  "busy = \<lparr>users = [alice, bob],
           wallets = [\<lparr>w_user_id = 1, w_balance = 1500\<rparr>, \<lparr>w_user_id = 2, w_balance = 0\<rparr>],
           transactions = map nth_deposit [0..<15]\<rparr>"

definition busy_page :: "nat \<Rightarrow> transactions_data" where
  "busy_page p = transactions_reply busy (int p) 10 15
                   (take 10 (drop ((p - 1) * 10) (rev (map nth_deposit [0..<15]))))"

text \<open>Carol, whose id is 9b2c1d4e-5f6a-4b7c-8d9e-0a1b2c3d4e5f, has registered and deposited
  500.00. She sends 200.00 to her own id written in upper case.\<close>

definition carol :: user_row where
  "carol = \<lparr>u_id = 206259394807642253271800080450893729375, u_email = ''carol@example.in'',
            u_name = ''Carol'', u_phone = ''9000000003'', u_is_active = True\<rparr>"

definition carol_deposit :: transaction_row where
  "carol_deposit =
     \<lparr>t_id = 30, t_sender_id = Some 206259394807642253271800080450893729375,
      t_recipient_id = None, t_amount = 50000,
      t_transaction_type = ''add_money'', t_status = ''completed'',
      t_payment_method = Some ''Card'', t_note = None,
      t_reference_id = ''ADD_300_c4r0'', t_created_at = 300\<rparr>"

definition carol_funded :: state where
  "carol_funded =
     \<lparr>db = \<lparr>users = [carol],
            wallets = [\<lparr>w_user_id = 206259394807642253271800080450893729375,
                         w_balance = 50000\<rparr>],
            transactions = [carol_deposit]\<rparr>,
      cache = Map.empty\<rparr>"

definition to_herself :: send_money_body where
  "to_herself = \<lparr>body_recipientId = ''9B2C1D4E-5F6A-4B7C-8D9E-0A1B2C3D4E5F'',
                 body_amount = 20000, body_note = None\<rparr>"

text \<open>The row of Carol's request that the first INSERT writes inside the transaction.\<close>

definition carol_to_carol :: transaction_row where
  "carol_to_carol =
     \<lparr>t_id = 11, t_sender_id = Some 206259394807642253271800080450893729375,
      t_recipient_id = Some 206259394807642253271800080450893729375, t_amount = 20000,
      t_transaction_type = ''send_money'', t_status = ''completed'',
      t_payment_method = None, t_note = None,
      t_reference_id = ''SEND_400_q7m2'', t_created_at = 400\<rparr>"

text \<open>An environment in which the pool has no connection to give.\<close>

definition no_connection :: env where
  "no_connection = \<lparr>now = 400, new_id = 11, new_id2 = 12, nonce = ''400_q7m2'',
                     outage = (\<lambda>c. c = CONNECT)\<rparr>"

section \<open>Properties\<close>

lemmas example_defs =
  alice_def bob_def deposit_row_def funded_def request_env_def lunch_def no_outage_def
  initial_def too_much_def to_nobody_def lost_at_credit_def

lemmas more_defs = registered_def cached_state_def db_down_def deposit_view_def

lemmas carol_defs = carol_def carol_deposit_def carol_funded_def to_herself_def
  carol_to_carol_def no_connection_def

text \<open>The texts of the example ids, written and read.\<close>

lemma id_texts:
  "uuid_out (Suc 0) = ''00000000-0000-0000-0000-000000000001''"
  "uuid_in ''00000000-0000-0000-0000-000000000002'' = Some 2"
  "uuid_in ''00000000-0000-0000-0000-000000000003'' = Some 3"
  "uuid_out 206259394807642253271800080450893729375 = ''9b2c1d4e-5f6a-4b7c-8d9e-0a1b2c3d4e5f''"
  "uuid_in ''9b2c1d4e-5f6a-4b7c-8d9e-0a1b2c3d4e5f''
     = Some 206259394807642253271800080450893729375"
  "uuid_in ''9B2C1D4E-5F6A-4B7C-8D9E-0A1B2C3D4E5F''
     = Some 206259394807642253271800080450893729375"
  by (simp_all add: uuid_out_def uuid_in_def hex_digit_def hex_value_def)

lemma await_Inr_iff: "await m k = Inr x \<longleftrightarrow> (\<exists>v. m = Inr v \<and> k v = Inr x)"
  by (cases m) simp_all

lemma query_Inr_iff: "query e c r = Inr v \<longleftrightarrow> \<not> outage e c \<and> r = Inr v"
  by (cases r) (simp_all add: query_def)

text \<open>The example state is the result of three requests on the empty system.\<close>

lemma funded_by_requests:
  "funded = snd (add_money (request_env 300 10 0 ''300_k3x9'')
              (snd (register (request_env 200 2 0 [])
                 (snd (register (request_env 100 1 0 []) initial
                    ''alice@example.in'' ''Alice'' ''9000000001''))
                 ''bob@example.in'' ''Bob'' ''9000000002'')) 1 50000 ''UPI'')"
  by (simp add: example_defs register_def register_tx_def query_def insert_user_def
      insert_wallet_def add_money_def add_money_tx_def insert_transaction_def
      update_balance_def updated_wallets_def add_money_row_def numeric_15_2_def references_user_def redis_del_def)

lemma funded_reachable: "reachable funded"
  unfolding funded_by_requests
  by (intro reachable.by_add_money reachable.by_register reachable.start)

subsection \<open>The second row of a transfer repeats the reference id of the first\<close>

lemma insert_transaction_same_reference:
  assumes "insert_transaction d t = Inr d1"
    and "t_amount t' = t_amount t" and "t_reference_id t' = t_reference_id t"
  shows "insert_transaction d1 t' = Inl unique_violation"
proof -
  from assms(1) have ok: "numeric_15_2 (t_amount t)" "\<not> t_amount t \<le> 0"
    and d1: "d1 = d\<lparr>transactions := transactions d @ [t]\<rparr>"
    by (auto simp: insert_transaction_def split: if_splits)
  show ?thesis
    using ok assms(2,3) by (simp add: insert_transaction_def d1)
qed

lemma send_money_tx_never_commits: "send_money_tx e d senderId body \<noteq> Inr x"
proof
  assume "send_money_tx e d senderId body = Inr x"
  then obtain rid d1 d2 where
    first: "insert_transaction d (transfer_row e (new_id e) senderId rid body ''send_money'')
              = Inr d1"
    and second: "insert_transaction d1
                   (transfer_row e (new_id2 e) senderId rid body ''receive_money'') = Inr d2"
    unfolding send_money_tx_def
    by (auto simp: await_Inr_iff query_Inr_iff neq_Nil_conv
        split: list.splits if_splits option.splits)
  have "insert_transaction d1 (transfer_row e (new_id2 e) senderId rid body ''receive_money'')
          = Inl unique_violation"
    using insert_transaction_same_reference [OF first] by (simp add: transfer_row_def)
  with second show False by simp
qed

lemma send_money_state: "snd (send_money e s senderId body) = s"
proof (cases "send_money_tx e (db s) senderId body")
  case (Inl x)
  then show ?thesis by (cases x) (simp_all add: send_money_def)
next
  case (Inr y)
  then show ?thesis using send_money_tx_never_commits by blast
qed

subsection \<open>Every request keeps the balances non-negative\<close>

lemma insert_transaction_frame:
  "insert_transaction d t = Inr d' \<Longrightarrow> wallets d' = wallets d \<and> users d' = users d"
  by (auto simp: insert_transaction_def split: if_splits)

lemma update_balance_Inr:
  assumes "update_balance d uid delta = Inr (d', rows)"
  shows "d' = d\<lparr>wallets := updated_wallets d uid delta\<rparr>"
    and "rows = filter (\<lambda>w. w_user_id w = uid) (updated_wallets d uid delta)"
    and "\<not> list_ex (\<lambda>w. w_balance w < 0) rows"
proof -
  let ?rows = "filter (\<lambda>w. w_user_id w = uid) (updated_wallets d uid delta)"
  have eq: "update_balance d uid delta =
     (if list_ex (\<lambda>w. \<not> numeric_15_2 (w_balance w)) ?rows then Inl numeric_overflow
      else if list_ex (\<lambda>w. w_balance w < 0) ?rows then Inl check_violation
      else Inr (d\<lparr>wallets := updated_wallets d uid delta\<rparr>, ?rows))"
    by (simp only: update_balance_def Let_def)
  show "d' = d\<lparr>wallets := updated_wallets d uid delta\<rparr>"
    using assms unfolding eq by (simp split: if_splits)
  show "rows = ?rows"
    using assms unfolding eq by (simp split: if_splits)
  show "\<not> list_ex (\<lambda>w. w_balance w < 0) rows"
    using assms unfolding eq by (simp split: if_splits)
qed

lemma update_balance_rows_nonneg:
  assumes "update_balance d uid delta = Inr (d', rows)"
  shows "list_all (\<lambda>w. 0 \<le> w_balance w) rows"
  using update_balance_Inr(3) [OF assms] by (simp add: list_all_iff list_ex_iff not_less)

lemma update_balance_nonneg:
  assumes "nonneg_balances d" and "update_balance d uid delta = Inr (d', rows)"
  shows "nonneg_balances d'"
proof -
  note upd = update_balance_Inr [OF assms(2)]
  have "0 \<le> w_balance w" if w: "w \<in> set (updated_wallets d uid delta)" for w
  proof (cases "w_user_id w = uid")
    case True
    with w have "w \<in> set rows" by (simp add: upd(2))
    with upd(3) show ?thesis by (simp add: list_ex_iff not_less)
  next
    case False
    from w obtain w0 where w0: "w0 \<in> set (wallets d)"
      and weq: "w = (if w_user_id w0 = uid then w0\<lparr>w_balance := w_balance w0 + delta\<rparr> else w0)"
      by (auto simp: updated_wallets_def)
    from False weq have "w = w0" by (cases "w_user_id w0 = uid") simp_all
    with w0 assms(1) show ?thesis by (simp add: nonneg_balances_def list_all_iff)
  qed
  then show ?thesis by (simp add: upd(1) nonneg_balances_def list_all_iff)
qed

lemma insert_wallet_nonneg:
  "nonneg_balances d \<Longrightarrow> insert_wallet d w = Inr d' \<Longrightarrow> nonneg_balances d'"
  by (auto simp: insert_wallet_def nonneg_balances_def split: if_splits)

lemma add_money_tx_nonneg:
  assumes "nonneg_balances d" and "add_money_tx e d userId amount pm = Inr (d', data)"
  shows "nonneg_balances d'"
proof -
  from assms(2) obtain d1 rows where
    ins: "insert_transaction d (add_money_row e userId amount pm) = Inr d1"
    and upd: "update_balance d1 userId amount = Inr (d', rows)"
    unfolding add_money_tx_def
    by (auto simp: await_Inr_iff query_Inr_iff neq_Nil_conv split: list.splits)
  from ins assms(1) have "nonneg_balances d1"
    using insert_transaction_frame by (simp add: nonneg_balances_def)
  then show ?thesis using upd by (rule update_balance_nonneg)
qed

lemma add_money_nonneg:
  assumes "nonneg_balances (db s)"
  shows "nonneg_balances (db (snd (add_money e s userId amount pm)))"
proof (cases "add_money_tx e (db s) userId amount pm")
  case (Inl x)
  then show ?thesis using assms by (simp add: add_money_def)
next
  case (Inr y)
  obtain d' data where y: "y = (d', data)" by (cases y)
  with Inr assms have "nonneg_balances d'" using add_money_tx_nonneg by blast
  with Inr y show ?thesis by (simp add: add_money_def)
qed

lemma register_tx_nonneg:
  assumes "nonneg_balances d" and "register_tx e d email name phone = Inr d'"
  shows "nonneg_balances d'"
proof -
  from assms(2) obtain d1 where
    ins: "insert_user d \<lparr>u_id = new_id e, u_email = email, u_name = name,
                              u_phone = phone, u_is_active = True\<rparr> = Inr d1"
    and w: "insert_wallet d1 \<lparr>w_user_id = new_id e, w_balance = 0\<rparr> = Inr d'"
    unfolding register_tx_def
    by (auto simp: await_Inr_iff query_Inr_iff)
  from ins assms(1) have "nonneg_balances d1"
    by (auto simp: insert_user_def nonneg_balances_def split: if_splits)
  then show ?thesis using w by (rule insert_wallet_nonneg)
qed

lemma register_nonneg:
  assumes "nonneg_balances (db s)"
  shows "nonneg_balances (db (snd (register e s email name phone)))"
proof (cases "register_tx e (db s) email name phone")
  case (Inl x)
  then show ?thesis using assms by (simp add: register_def)
next
  case (Inr d')
  with assms have "nonneg_balances d'" using register_tx_nonneg by blast
  with Inr assms show ?thesis by (simp add: register_def)
qed

lemma get_balance_db: "db (snd (get_balance e s userId)) = db s"
  by (simp add: get_balance_def split: option.splits list.splits)

lemma reachable_nonneg: "reachable s \<Longrightarrow> nonneg_balances (db s)"
proof (induction rule: reachable.induct)
  case start
  show ?case by (simp add: initial_def nonneg_balances_def)
next
  case (by_register s e email name phone)
  then show ?case by (simp add: register_nonneg)
next
  case (by_get_balance s e userId)
  then show ?case by (simp add: get_balance_db)
next
  case (by_add_money s e userId amount paymentMethod)
  then show ?case by (simp add: add_money_nonneg)
next
  case (by_send_money s e senderId body)
  then show ?case by (simp add: send_money_state)
qed

subsection \<open>The two UPDATE statements of a transfer\<close>

text \<open>Taken by themselves, the debit and the credit move the amount: when both statements
  succeed, every wallet row of the sender is lower by the amount and every wallet row of the
  recipient is higher by it.\<close>

lemma filter_updated_wallets:
  "filter (\<lambda>w. w_user_id w = v)
     (map (\<lambda>w. if w_user_id w = uid then w\<lparr>w_balance := w_balance w + delta\<rparr> else w) ws)
   = (if v = uid
      then map (\<lambda>w. w\<lparr>w_balance := w_balance w + delta\<rparr>) (filter (\<lambda>w. w_user_id w = uid) ws)
      else filter (\<lambda>w. w_user_id w = v) ws)"
  by (induction ws) auto

lemma select_wallet_after_update:
  assumes "update_balance d uid delta = Inr (d', rows)"
  shows "select_wallet d' v =
     (if v = uid then map (\<lambda>w. w\<lparr>w_balance := w_balance w + delta\<rparr>) (select_wallet d uid)
      else select_wallet d v)"
  using filter_updated_wallets [of v uid delta "wallets d"]
  by (simp add: update_balance_Inr(1) [OF assms] select_wallet_def updated_wallets_def)

lemma balance_updates_conserve:
  assumes "update_balance d senderId (- a) = Inr (d3, rs)"
    and "update_balance d3 recipientId a = Inr (d4, rr)"
    and "senderId \<noteq> recipientId"
  shows "map w_balance (select_wallet d4 senderId)
           = map (\<lambda>w. w_balance w - a) (select_wallet d senderId)"
    and "map w_balance (select_wallet d4 recipientId)
           = map (\<lambda>w. w_balance w + a) (select_wallet d recipientId)"
    and "map w_balance rs = map (\<lambda>w. w_balance w - a) (select_wallet d senderId)"
proof -
  show "map w_balance (select_wallet d4 senderId)
           = map (\<lambda>w. w_balance w - a) (select_wallet d senderId)"
    using assms(3)
    by (simp add: select_wallet_after_update [OF assms(2)]
        select_wallet_after_update [OF assms(1)] comp_def)
  show "map w_balance (select_wallet d4 recipientId)
           = map (\<lambda>w. w_balance w + a) (select_wallet d recipientId)"
    using assms(3)
    by (simp add: select_wallet_after_update [OF assms(2)]
        select_wallet_after_update [OF assms(1)] comp_def)
  have "rs = select_wallet d3 senderId"
    by (simp add: update_balance_Inr(1,2) [OF assms(1)] select_wallet_def)
  then show "map w_balance rs = map (\<lambda>w. w_balance w - a) (select_wallet d senderId)"
    by (simp add: select_wallet_after_update [OF assms(1)] comp_def)
qed

subsection \<open>Transfers\<close>

text \<open>
  C1 (conservation of a completed transfer). The claim takes a transfer between an existing
  sender with enough balance and a different, active recipient to complete, moving the amount
  from one wallet to the other. On the code no such transfer completes: in the example
  state Alice holds 500.00 and sends Bob 200.00; the first INSERT stores the reference id,
  the second INSERT repeats it, \<^verbatim>\<open>reference_id VARCHAR(100) UNIQUE\<close> rejects it, and the
  handler rolls back and answers 500. Both balances stay as they were. (The two UPDATE
  statements, which are never reached, would conserve the amount: \<open>balance_updates_conserve\<close>.)
\<close>

theorem transfer_example_fails:
  "send_money (request_env 400 11 12 ''400_q7m2'') funded 1 lunch
     = (Inl (500, ''Failed to send money''), funded)"
  by (simp add: example_defs send_money_def send_money_tx_def query_def
      insert_transaction_def transfer_row_def select_wallet_def select_active_user_def
      numeric_15_2_def references_user_def id_texts)

text \<open>
  C5 (rows of a transfer and of a deposit). A successful transfer would have to insert a
  \<^verbatim>\<open>send_money\<close> and a \<^verbatim>\<open>receive_money\<close> row with one reference id; the unique constraint on
  that column makes the second INSERT fail, so no request to send money ever returns
  success, whatever the state, the arguments and the environment.
\<close>

theorem send_money_never_succeeds:
  "fst (send_money e s senderId body) \<noteq> Inr data"
proof (cases "send_money_tx e (db s) senderId body")
  case (Inl x)
  then show ?thesis by (cases x) (simp_all add: send_money_def)
next
  case (Inr y)
  then show ?thesis using send_money_tx_never_commits by blast
qed

lemma self_transfer_same_text:
  "send_money e s u \<lparr>body_recipientId = uuid_out u, body_amount = a, body_note = n\<rparr>
     = (Inl (400, ''Cannot send money to yourself''), s)"
  by (simp add: send_money_def)

lemma post_send_money_without_connection:
  "outage e CONNECT \<Longrightarrow> post_send_money e s u body = (None, s)"
  by (simp add: post_send_money_def)

lemma post_send_money_never_succeeds:
  "fst (post_send_money e s senderId body) \<noteq> Some (Inr data)"
proof (cases "send_money_tx e (db s) senderId body")
  case (Inl x)
  then show ?thesis by (cases x) (simp_all add: post_send_money_def send_money_def)
next
  case (Inr y)
  then show ?thesis using send_money_tx_never_commits by blast
qed

lemma post_send_money_state: "snd (post_send_money e s senderId body) = s"
  by (simp add: post_send_money_def send_money_state)

lemma post_add_money_state:
  "snd (post_add_money e s userId amount pm)
     = (if outage e CONNECT then s else snd (add_money e s userId amount pm))"
  by (simp add: post_add_money_def)

lemma carol_funded_by_requests:
  "carol_funded = snd (add_money (request_env 300 30 0 ''300_c4r0'')
                    (snd (register (request_env 100 206259394807642253271800080450893729375 0 [])
                       initial ''carol@example.in'' ''Carol'' ''9000000003''))
                    206259394807642253271800080450893729375 50000 ''Card'')"
  by (simp add: example_defs carol_defs register_def register_tx_def query_def insert_user_def
      insert_wallet_def add_money_def add_money_tx_def insert_transaction_def
      update_balance_def updated_wallets_def add_money_row_def numeric_15_2_def
      references_user_def redis_del_def Let_def)

lemma carol_funded_reachable: "reachable carol_funded"
  unfolding carol_funded_by_requests
  by (intro reachable.by_add_money reachable.by_register reachable.start)

text \<open>
  C6 (self-transfer). The handler means to reject a transfer to oneself before it calls the
  database, and it does when the recipient text is the sender's id letter for letter
  (\<open>self_transfer_same_text\<close>). But it compares texts where the database compares UUIDs.
  Carol's id written in upper case is another text and the same UUID: her request passes the
  check, BEGIN and both SELECTs run, the first INSERT writes a row from Carol to Carol inside
  the transaction, the second INSERT fails and the reply is 500 "Failed to send money", not
  the rejection of a self-transfer. The handler also asks the pool for a connection before
  the check: in an environment where none can be had, the request with the sender's id
  letter for letter gets no reply at all.
\<close>

theorem self_transfer_in_upper_case:
  "reachable carol_funded \<and>
   uuid_out (u_id carol) \<noteq> body_recipientId to_herself \<and>
   uuid_in (body_recipientId to_herself) = Some (u_id carol) \<and>
   select_active_user (db carol_funded) (u_id carol) = [carol] \<and>
   insert_transaction (db carol_funded)
       (transfer_row (request_env 400 11 12 ''400_q7m2'') 11 (u_id carol) (u_id carol)
          to_herself ''send_money'')
     = Inr ((db carol_funded)\<lparr>transactions := [carol_deposit, carol_to_carol]\<rparr>) \<and>
   send_money (request_env 400 11 12 ''400_q7m2'') carol_funded (u_id carol) to_herself
     = (Inl (500, ''Failed to send money''), carol_funded) \<and>
   post_send_money no_connection carol_funded (u_id carol)
       \<lparr>body_recipientId = uuid_out (u_id carol), body_amount = 20000, body_note = None\<rparr>
     = (None, carol_funded)"
proof -
  have texts: "uuid_out (u_id carol) \<noteq> body_recipientId to_herself"
    "uuid_in (body_recipientId to_herself) = Some (u_id carol)"
    by (simp_all add: carol_defs id_texts)
  have found: "select_active_user (db carol_funded) (u_id carol) = [carol]"
    by (simp add: carol_defs select_active_user_def)
  have first: "insert_transaction (db carol_funded)
       (transfer_row (request_env 400 11 12 ''400_q7m2'') 11 (u_id carol) (u_id carol)
          to_herself ''send_money'')
     = Inr ((db carol_funded)\<lparr>transactions := [carol_deposit, carol_to_carol]\<rparr>)"
    by (simp add: example_defs carol_defs insert_transaction_def transfer_row_def
        numeric_15_2_def references_user_def)
  have reply: "send_money (request_env 400 11 12 ''400_q7m2'') carol_funded (u_id carol)
      to_herself = (Inl (500, ''Failed to send money''), carol_funded)"
    by (simp add: example_defs carol_defs send_money_def send_money_tx_def query_def
        insert_transaction_def transfer_row_def select_wallet_def select_active_user_def
        numeric_15_2_def references_user_def id_texts)
  have silent: "post_send_money no_connection carol_funded (u_id carol)
       \<lparr>body_recipientId = uuid_out (u_id carol), body_amount = 20000, body_note = None\<rparr>
     = (None, carol_funded)"
    by (rule post_send_money_without_connection) (simp add: carol_defs)
  from carol_funded_reachable texts found first reply silent show ?thesis by simp
qed

subsection \<open>Rejected and failed transfers\<close>

lemma insufficient_balance_reply:
  assumes "uuid_out senderId \<noteq> body_recipientId body"
    and "\<not> outage e BEGIN" and "\<not> outage e SELECT_sender_wallet"
    and "select_wallet (db s) senderId = w # ws" and "w_balance w < body_amount body"
  shows "send_money e s senderId body = (Inl (400, ''Insufficient balance''), s)"
  using assms by (simp add: send_money_def send_money_tx_def query_def)

lemma recipient_not_found_reply:
  assumes "uuid_out senderId \<noteq> body_recipientId body"
    and "\<not> outage e BEGIN" and "\<not> outage e SELECT_sender_wallet" and "\<not> outage e SELECT_recipient"
    and "select_wallet (db s) senderId = w # ws" and "body_amount body \<le> w_balance w"
    and "uuid_in (body_recipientId body) = Some rid"
    and "select_active_user (db s) rid = []"
  shows "send_money e s senderId body = (Inl (404, ''Recipient not found''), s)"
  using assms by (simp add: send_money_def send_money_tx_def query_def)


text \<open>
  C2 (non-negative balances). In every state reachable from the empty system by requests,
  every wallet balance is at least 0. The storage layer enforces this by itself: an UPDATE of
  balances that succeeds returns only non-negative rows and keeps the invariant, whatever
  amount the application passes (the CHECK constraint of the wallets table). A transfer whose
  amount exceeds the balance the sender's wallet holds is answered 400 "Insufficient
  balance" and leaves the whole state, so both balances, as it was.
\<close>

theorem balances_never_negative:
  "(reachable s \<longrightarrow> nonneg_balances (db s)) \<and>
   (update_balance d uid delta = Inr (d', rows) \<longrightarrow>
      list_all (\<lambda>w. 0 \<le> w_balance w) rows \<and> (nonneg_balances d \<longrightarrow> nonneg_balances d')) \<and>
   (uuid_out senderId \<noteq> body_recipientId body \<and> \<not> outage e BEGIN \<and>
    \<not> outage e SELECT_sender_wallet \<and>
    select_wallet (db s1) senderId = w # ws \<and> w_balance w < body_amount body \<longrightarrow>
      send_money e s1 senderId body = (Inl (400, ''Insufficient balance''), s1))"
  using reachable_nonneg update_balance_rows_nonneg update_balance_nonneg
    insufficient_balance_reply by blast

lemma debit_example:
  "update_balance (db funded) 1 (- 20000)
     = Inr ((db funded)\<lparr>wallets := [\<lparr>w_user_id = 1, w_balance = 30000\<rparr>,
                                \<lparr>w_user_id = 2, w_balance = 0\<rparr>]\<rparr>,
            [\<lparr>w_user_id = 1, w_balance = 30000\<rparr>])"
  by (simp add: example_defs update_balance_def updated_wallets_def numeric_15_2_def)

lemma overdraft_example: "update_balance (db funded) 1 (- 60000) = Inl check_violation"
  by (simp add: example_defs update_balance_def updated_wallets_def numeric_15_2_def)

theorem balances_never_negative_witness:
  "reachable funded \<and> nonneg_balances (db funded) \<and>
   update_balance (db funded) 1 (- 20000)
     = Inr ((db funded)\<lparr>wallets := [\<lparr>w_user_id = 1, w_balance = 30000\<rparr>,
                                \<lparr>w_user_id = 2, w_balance = 0\<rparr>]\<rparr>,
            [\<lparr>w_user_id = 1, w_balance = 30000\<rparr>]) \<and>
   list_all (\<lambda>w. 0 \<le> w_balance w) [\<lparr>w_user_id = 1, w_balance = 30000\<rparr>] \<and>
   nonneg_balances ((db funded)\<lparr>wallets := [\<lparr>w_user_id = 1, w_balance = 30000\<rparr>,
                                \<lparr>w_user_id = 2, w_balance = 0\<rparr>]\<rparr>) \<and>
   select_wallet (db funded) 1 = [\<lparr>w_user_id = 1, w_balance = 50000\<rparr>] \<and>
   send_money (request_env 400 11 12 ''400_q7m2'') funded 1 too_much
     = (Inl (400, ''Insufficient balance''), funded)"
proof -
  have sel: "select_wallet (db funded) 1 = [\<lparr>w_user_id = 1, w_balance = 50000\<rparr>]"
    by (simp add: example_defs select_wallet_def)
  have pre: "uuid_out 1 \<noteq> body_recipientId too_much"
    "\<not> outage (request_env 400 11 12 ''400_q7m2'') BEGIN"
    "\<not> outage (request_env 400 11 12 ''400_q7m2'') SELECT_sender_wallet"
    "w_balance \<lparr>w_user_id = 1, w_balance = 50000\<rparr> < body_amount too_much"
    by (simp_all add: example_defs id_texts)
  show ?thesis
    using balances_never_negative [where s = funded and d = "db funded" and uid = 1
        and delta = "- 20000" and rows = "[\<lparr>w_user_id = 1, w_balance = 30000\<rparr>]"
        and d' = "(db funded)\<lparr>wallets := [\<lparr>w_user_id = 1, w_balance = 30000\<rparr>,
                                \<lparr>w_user_id = 2, w_balance = 0\<rparr>]\<rparr>"
        and senderId = 1 and body = too_much and e = "request_env 400 11 12 ''400_q7m2''"
        and ?s1.0 = funded and w = "\<lparr>w_user_id = 1, w_balance = 50000\<rparr>" and ws = "[]"]
      funded_reachable debit_example sel pre
    by simp
qed


text \<open>
  C3 (atomicity of a failed transfer). Whenever a request to send money is answered with a
  failure, the state after it is the state before it: no transaction row and no balance
  change is kept. A balance below the amount gives the failure 400 "Insufficient balance" of
  its own, a missing or inactive recipient gives 404 "Recipient not found", and a database
  failure at either INSERT or either UPDATE gives a failure with the state as it was.
\<close>

theorem failed_transfer_rolls_back:
  "(send_money e s senderId body = (Inl err, s') \<longrightarrow> s' = s) \<and>
   (uuid_out senderId \<noteq> body_recipientId body \<and> \<not> outage e BEGIN \<and>
    \<not> outage e SELECT_sender_wallet \<and>
    select_wallet (db s) senderId = w # ws \<and> w_balance w < body_amount body \<longrightarrow>
      send_money e s senderId body = (Inl (400, ''Insufficient balance''), s)) \<and>
   (uuid_out senderId \<noteq> body_recipientId body \<and> \<not> outage e BEGIN \<and>
    \<not> outage e SELECT_sender_wallet \<and> \<not> outage e SELECT_recipient \<and>
    select_wallet (db s) senderId = w # ws \<and> body_amount body \<le> w_balance w \<and>
    uuid_in (body_recipientId body) = Some rid \<and>
    select_active_user (db s) rid = [] \<longrightarrow>
      send_money e s senderId body = (Inl (404, ''Recipient not found''), s)) \<and>
   (outage e c \<and> c \<in> {INSERT_send, INSERT_receive, UPDATE_sender, UPDATE_recipient} \<longrightarrow>
      (\<exists>failure. send_money e s senderId body = (Inl failure, s)))"
proof -
  have state: "snd (send_money e s senderId body) = s"
    by (rule send_money_state)
  have "\<exists>failure. fst (send_money e s senderId body) = Inl failure"
  proof (cases "fst (send_money e s senderId body)")
    case (Inl a)
    then show ?thesis by simp
  next
    case (Inr b)
    have "send_money_tx e (db s) senderId body \<noteq> Inr y" for y
      by (rule send_money_tx_never_commits)
    with Inr show ?thesis
      by (cases "send_money_tx e (db s) senderId body")
         (auto simp: send_money_def split: if_splits early.splits)
  qed
  then obtain failure where "fst (send_money e s senderId body) = Inl failure" ..
  with state have all: "send_money e s senderId body = (Inl failure, s)"
    by (metis prod.collapse)
  show ?thesis
    using all insufficient_balance_reply recipient_not_found_reply by auto
qed

theorem failed_transfer_rolls_back_witness:
  "send_money (request_env 400 11 12 ''400_q7m2'') funded 1 too_much
     = (Inl (400, ''Insufficient balance''), funded) \<and>
   send_money (request_env 400 11 12 ''400_q7m2'') funded 1 to_nobody
     = (Inl (404, ''Recipient not found''), funded) \<and>
   outage lost_at_credit UPDATE_recipient \<and>
   send_money lost_at_credit funded 1 lunch = (Inl (500, ''Failed to send money''), funded)"
proof -
  have sel: "select_wallet (db funded) 1 = [\<lparr>w_user_id = 1, w_balance = 50000\<rparr>]"
    by (simp add: example_defs select_wallet_def)
  have none: "uuid_in (body_recipientId to_nobody) = Some 3"
    "select_active_user (db funded) 3 = []"
    by (simp_all add: example_defs select_active_user_def id_texts)
  have pre: "uuid_out 1 \<noteq> body_recipientId too_much"
    "uuid_out 1 \<noteq> body_recipientId to_nobody"
    "\<not> outage (request_env 400 11 12 ''400_q7m2'') BEGIN"
    "\<not> outage (request_env 400 11 12 ''400_q7m2'') SELECT_sender_wallet"
    "\<not> outage (request_env 400 11 12 ''400_q7m2'') SELECT_recipient"
    "w_balance \<lparr>w_user_id = 1, w_balance = 50000\<rparr> < body_amount too_much"
    "body_amount to_nobody \<le> w_balance \<lparr>w_user_id = 1, w_balance = 50000\<rparr>"
    "outage lost_at_credit UPDATE_recipient"
    by (simp_all add: example_defs id_texts)
  have lost: "send_money lost_at_credit funded 1 lunch = (Inl (500, ''Failed to send money''), funded)"
    by (simp add: example_defs send_money_def send_money_tx_def query_def
      insert_transaction_def transfer_row_def select_wallet_def select_active_user_def
      numeric_15_2_def references_user_def id_texts)
  show ?thesis
    using failed_transfer_rolls_back [where e = "request_env 400 11 12 ''400_q7m2''"
        and s = funded and senderId = 1 and body = too_much
        and w = "\<lparr>w_user_id = 1, w_balance = 50000\<rparr>" and ws = "[]"]
      failed_transfer_rolls_back [where e = "request_env 400 11 12 ''400_q7m2''"
        and s = funded and senderId = 1 and body = to_nobody and rid = 3
        and w = "\<lparr>w_user_id = 1, w_balance = 50000\<rparr>" and ws = "[]"]
      failed_transfer_rolls_back [where e = lost_at_credit and c = UPDATE_recipient
        and s = funded and senderId = 1 and body = lunch]
      sel none pre lost
    by simp
qed


subsection \<open>Deposits\<close>

lemma insert_transaction_rows:
  "insert_transaction d t = Inr d' \<Longrightarrow> transactions d' = transactions d @ [t]"
  by (auto simp: insert_transaction_def split: if_splits)

lemma add_money_tx_rows:
  assumes "add_money_tx e d userId amount pm = Inr (d', data)"
  shows "transactions d' = transactions d @ [add_money_row e userId amount pm]"
proof -
  from assms obtain d1 rows where
    ins: "insert_transaction d (add_money_row e userId amount pm) = Inr d1"
    and upd: "update_balance d1 userId amount = Inr (d', rows)"
    unfolding add_money_tx_def
    by (auto simp: await_Inr_iff query_Inr_iff neq_Nil_conv split: list.splits)
  from update_balance_Inr(1) [OF upd] have "transactions d' = transactions d1" by simp
  with insert_transaction_rows [OF ins] show ?thesis by simp
qed

lemma add_money_inserts_one_row:
  assumes "add_money e s userId amount pm = (Inr data, s')"
  shows "transactions (db s') = transactions (db s) @ [add_money_row e userId amount pm]"
proof (cases "add_money_tx e (db s) userId amount pm")
  case (Inl x)
  with assms show ?thesis by (simp add: add_money_def)
next
  case (Inr y)
  obtain d' data' where y: "y = (d', data')" by (cases y)
  from Inr y assms have "db s' = d'"
    by (auto simp: add_money_def split: if_splits)
  with add_money_tx_rows Inr y show ?thesis by simp
qed

lemma add_money_rows_cases:
  "transactions (db (snd (add_money e s userId amount pm))) = transactions (db s) \<or>
   transactions (db (snd (add_money e s userId amount pm)))
     = transactions (db s) @ [add_money_row e userId amount pm]"
proof (cases "add_money_tx e (db s) userId amount pm")
  case (Inl x)
  then show ?thesis by (simp add: add_money_def)
next
  case (Inr y)
  obtain d' data' where y: "y = (d', data')" by (cases y)
  from Inr y have "db (snd (add_money e s userId amount pm)) = d'"
    by (simp add: add_money_def)
  with add_money_tx_rows Inr y show ?thesis by simp
qed

lemma register_rows: "transactions (db (snd (register e s email name phone))) = transactions (db s)"
proof (cases "register_tx e (db s) email name phone")
  case (Inl x)
  then show ?thesis by (simp add: register_def)
next
  case (Inr d')
  then obtain d1 where
    ins: "insert_user (db s) \<lparr>u_id = new_id e, u_email = email, u_name = name,
                              u_phone = phone, u_is_active = True\<rparr> = Inr d1"
    and w: "insert_wallet d1 \<lparr>w_user_id = new_id e, w_balance = 0\<rparr> = Inr d'"
    unfolding register_tx_def
    by (auto simp: await_Inr_iff query_Inr_iff)
  from ins have "transactions d1 = transactions (db s)"
    by (auto simp: insert_user_def split: if_splits)
  moreover from w have "transactions d' = transactions d1"
    by (auto simp: insert_wallet_def split: if_splits)
  ultimately show ?thesis using Inr by (simp add: register_def)
qed

lemma add_money_row_shaped: "deposit_shaped (add_money_row e userId amount pm)"
  by (simp add: deposit_shaped_def add_money_row_def)

lemma reachable_deposits_shaped:
  "reachable s \<Longrightarrow> list_all deposit_shaped (transactions (db s))"
proof (induction rule: reachable.induct)
  case start
  show ?case by (simp add: initial_def)
next
  case (by_register s e email name phone)
  then show ?case by (simp add: register_rows)
next
  case (by_get_balance s e userId)
  then show ?case by (simp add: get_balance_db)
next
  case (by_add_money s e userId amount paymentMethod)
  then show ?case
    using add_money_rows_cases [of e s userId amount paymentMethod]
    by (auto simp: add_money_row_shaped)
next
  case (by_send_money s e senderId body)
  then show ?case by (simp add: send_money_state)
qed

lemma where_clause_deposit:
  assumes "t_transaction_type t = ''add_money''" and "t_recipient_id t = None"
  shows "where_clause u (Some ''sent'') t \<longleftrightarrow> t_sender_id t = Some u"
    and "where_clause u (Some ''add_money'') t \<longleftrightarrow> t_sender_id t = Some u"
    and "\<not> where_clause u (Some ''received'') t"
  using assms by (simp_all add: where_clause_def)

lemma format_counterparts:
  "v_recipient (format_transaction d t) \<noteq> None \<longleftrightarrow> t_transaction_type t = ''send_money''"
  "v_sender (format_transaction d t) \<noteq> None \<longleftrightarrow> t_transaction_type t = ''receive_money''"
  by (simp_all add: format_transaction_def)

text \<open>
  C10 (deposit rows). A successful deposit appends exactly the row \<open>add_money_row\<close>, which
  has type \<^verbatim>\<open>add_money\<close>, the depositing user as sender and no recipient; in every reachable
  state every \<^verbatim>\<open>add_money\<close> row has a sender and no recipient. For such a row the filters
  \<^verbatim>\<open>sent\<close> and \<^verbatim>\<open>add_money\<close> select it exactly for its sender and \<^verbatim>\<open>received\<close> never
  selects it. Its view carries neither a sender nor a recipient object: the recipient object
  is attached exactly to \<^verbatim>\<open>send_money\<close> rows and the sender object exactly to
  \<^verbatim>\<open>receive_money\<close> rows.
\<close>

theorem deposits_are_sender_rows:
  "(add_money e s userId amt pm = (Inr data, s') \<longrightarrow>
      transactions (db s') = transactions (db s) @ [add_money_row e userId amt pm]) \<and>
   t_transaction_type (add_money_row e userId amt pm) = ''add_money'' \<and>
   t_sender_id (add_money_row e userId amt pm) = Some userId \<and>
   t_recipient_id (add_money_row e userId amt pm) = None \<and>
   (reachable s0 \<and> t \<in> set (transactions (db s0)) \<and> t_transaction_type t = ''add_money'' \<longrightarrow>
      t_sender_id t \<noteq> None \<and> t_recipient_id t = None) \<and>
   (t_transaction_type t = ''add_money'' \<and> t_recipient_id t = None \<longrightarrow>
      (where_clause u (Some ''sent'') t \<longleftrightarrow> t_sender_id t = Some u) \<and>
      (where_clause u (Some ''add_money'') t \<longleftrightarrow> t_sender_id t = Some u) \<and>
      \<not> where_clause u (Some ''received'') t) \<and>
   (t_transaction_type t = ''add_money'' \<longrightarrow>
      v_sender (format_transaction d t) = None \<and> v_recipient (format_transaction d t) = None) \<and>
   (v_recipient (format_transaction d t) \<noteq> None \<longleftrightarrow> t_transaction_type t = ''send_money'') \<and>
   (v_sender (format_transaction d t) \<noteq> None \<longleftrightarrow> t_transaction_type t = ''receive_money'')"
proof -
  have shaped: "t_sender_id t \<noteq> None \<and> t_recipient_id t = None"
    if "reachable s0" "t \<in> set (transactions (db s0))" "t_transaction_type t = ''add_money''"
    using reachable_deposits_shaped [OF that(1)] that(2,3)
    by (auto simp: list_all_iff deposit_shaped_def)
  have views: "v_sender (format_transaction d t) = None \<and> v_recipient (format_transaction d t) = None"
    if "t_transaction_type t = ''add_money''"
    using that by (simp add: format_transaction_def)
  show ?thesis
    using add_money_inserts_one_row shaped where_clause_deposit views format_counterparts
    by (simp add: add_money_row_def)
qed


theorem deposits_are_sender_rows_witness:
  "add_money (request_env 300 10 0 ''300_k3x9'') registered 1 50000 ''UPI''
     = (Inr \<lparr>a_transactionId = 10, a_amount = 50000, a_newBalance = 50000,
             a_paymentMethod = ''UPI'', a_referenceId = ''ADD_300_k3x9''\<rparr>, funded) \<and>
   add_money_row (request_env 300 10 0 ''300_k3x9'') 1 50000 ''UPI'' = deposit_row \<and>
   transactions (db funded) = transactions (db registered) @ [deposit_row] \<and>
   reachable funded \<and> deposit_row \<in> set (transactions (db funded)) \<and>
   t_transaction_type deposit_row = ''add_money'' \<and>
   t_sender_id deposit_row = Some 1 \<and> t_recipient_id deposit_row = None \<and>
   where_clause 1 (Some ''sent'') deposit_row \<and>
   where_clause 1 (Some ''add_money'') deposit_row \<and>
   \<not> where_clause 1 (Some ''received'') deposit_row \<and>
   v_sender (format_transaction (db funded) deposit_row) = None \<and>
   v_recipient (format_transaction (db funded) deposit_row) = None"
proof -
  have run: "add_money (request_env 300 10 0 ''300_k3x9'') registered 1 50000 ''UPI''
     = (Inr \<lparr>a_transactionId = 10, a_amount = 50000, a_newBalance = 50000,
             a_paymentMethod = ''UPI'', a_referenceId = ''ADD_300_k3x9''\<rparr>, funded)"
    by (simp add: example_defs more_defs add_money_def add_money_tx_def query_def
        insert_transaction_def update_balance_def updated_wallets_def add_money_row_def
        numeric_15_2_def references_user_def redis_del_def)
  have row: "add_money_row (request_env 300 10 0 ''300_k3x9'') 1 50000 ''UPI'' = deposit_row"
    by (simp add: example_defs add_money_row_def)
  have facts: "deposit_row \<in> set (transactions (db funded))"
    "t_transaction_type deposit_row = ''add_money''"
    by (simp_all add: example_defs)
  show ?thesis
    using deposits_are_sender_rows [where e = "request_env 300 10 0 ''300_k3x9''"
        and s = registered and userId = 1 and amt = 50000 and pm = "''UPI''"
        and s' = funded and ?s0.0 = funded and t = deposit_row and u = 1 and d = "db funded"
        and data = "\<lparr>a_transactionId = 10, a_amount = 50000, a_newBalance = 50000,
             a_paymentMethod = ''UPI'', a_referenceId = ''ADD_300_k3x9''\<rparr>"]
      run row facts funded_reachable
    by simp
qed

subsection \<open>GET /balance\<close>



subsection \<open>GET /transactions/:id\<close>

lemma filter_by_key_distinct:
  assumes "distinct (map f xs)" and "x \<in> set xs"
  shows "filter (\<lambda>y. f y = f x \<and> P y) xs = (if P x then [x] else [])"
  using assms
proof (induction xs)
  case Nil
  then show ?case by simp
next
  case (Cons a xs)
  show ?case
  proof (cases "a = x")
    case True
    with Cons.prems have "f x \<notin> f ` set xs" by simp
    then have "\<forall>y\<in>set xs. f y \<noteq> f x" by (metis imageI)
    then have "filter (\<lambda>y. f y = f x \<and> P y) xs = []" by (simp add: filter_empty_conv)
    with True show ?thesis by simp
  next
    case False
    with Cons.prems have x: "x \<in> set xs" and "f a \<noteq> f x" by auto
    with Cons show ?thesis by simp
  qed
qed

text \<open>
  C7 (a transaction is shown to its parties only). With the database reachable, the request
  returns a transaction exactly when a row with that id has the caller as sender or as
  recipient, and what it returns is the view of such a row with that id (of the row itself
  when ids are unique, as the primary key makes them). In every other case the reply is 404
  "Transaction not found", the same reply as on the tables with every row of that id removed.
\<close>

theorem get_transaction_for_parties_only:
  "\<not> outage e SELECT_transaction \<longrightarrow>
     ((\<exists>v. get_transaction e d userId tid = Inr v) \<longleftrightarrow>
        (\<exists>t\<in>set (transactions d). t_id t = tid \<and>
           (t_sender_id t = Some userId \<or> t_recipient_id t = Some userId))) \<and>
     (\<forall>v. get_transaction e d userId tid = Inr v \<longrightarrow>
        v_id v = tid \<and>
        (\<exists>t\<in>set (transactions d). t_id t = tid \<and>
           (t_sender_id t = Some userId \<or> t_recipient_id t = Some userId) \<and>
           v = format_transaction d t)) \<and>
     (\<forall>t\<in>set (transactions d). distinct (map t_id (transactions d)) \<and> t_id t = tid \<and>
           (t_sender_id t = Some userId \<or> t_recipient_id t = Some userId) \<longrightarrow>
        get_transaction e d userId tid = Inr (format_transaction d t)) \<and>
     (\<not> (\<exists>t\<in>set (transactions d). t_id t = tid \<and>
           (t_sender_id t = Some userId \<or> t_recipient_id t = Some userId)) \<longrightarrow>
        get_transaction e d userId tid = Inl (404, ''Transaction not found'') \<and>
        get_transaction e d userId tid
          = get_transaction e (d\<lparr>transactions := filter (\<lambda>t. t_id t \<noteq> tid) (transactions d)\<rparr>)
              userId tid)"
proof
  assume up: "\<not> outage e SELECT_transaction"
  let ?P = "\<lambda>t. t_id t = tid \<and> (t_sender_id t = Some userId \<or> t_recipient_id t = Some userId)"
  let ?hits = "filter ?P (transactions d)"
  have res: "get_transaction e d userId tid =
      (case ?hits of [] \<Rightarrow> Inl (404, ''Transaction not found'')
       | tx # _ \<Rightarrow> Inr (format_transaction d tx))"
    using up by (simp add: get_transaction_def)
  have a: "(\<exists>v. get_transaction e d userId tid = Inr v) \<longleftrightarrow> (\<exists>t\<in>set (transactions d). ?P t)"
  proof (cases ?hits)
    case Nil
    then have "\<not> (\<exists>t\<in>set (transactions d). ?P t)" by (simp add: filter_empty_conv)
    with Nil res show ?thesis by simp
  next
    case (Cons t ts)
    then have "t \<in> set ?hits" by simp
    then have "t \<in> set (transactions d) \<and> ?P t" by simp
    with Cons res show ?thesis by auto
  qed
  have b: "v_id v = tid \<and> (\<exists>t\<in>set (transactions d). ?P t \<and> v = format_transaction d t)"
    if "get_transaction e d userId tid = Inr v" for v
  proof (cases ?hits)
    case Nil
    with res that show ?thesis by simp
  next
    case (Cons t ts)
    then have "t \<in> set ?hits" by simp
    then have t: "t \<in> set (transactions d)" "?P t" by simp_all
    from Cons res that have "v = format_transaction d t" by simp
    with t show ?thesis by (auto simp: format_transaction_def)
  qed
  have c: "get_transaction e d userId tid = Inr (format_transaction d t)"
    if "t \<in> set (transactions d)" "distinct (map t_id (transactions d))" "?P t" for t
  proof -
    from that(3) have tid: "t_id t = tid"
      and party: "t_sender_id t = Some userId \<or> t_recipient_id t = Some userId"
      by simp_all
    have "filter (\<lambda>y. t_id y = t_id t \<and>
             (t_sender_id y = Some userId \<or> t_recipient_id y = Some userId)) (transactions d)
          = [t]"
      using filter_by_key_distinct [OF that(2) that(1),
          of "\<lambda>t. t_sender_id t = Some userId \<or> t_recipient_id t = Some userId"] party
      by simp
    then have "?hits = [t]" unfolding tid .
    with res show ?thesis by simp
  qed
  have dd: "get_transaction e d userId tid = Inl (404, ''Transaction not found'') \<and>
        get_transaction e d userId tid
          = get_transaction e (d\<lparr>transactions := filter (\<lambda>t. t_id t \<noteq> tid) (transactions d)\<rparr>)
              userId tid"
    if none: "\<not> (\<exists>t\<in>set (transactions d). ?P t)"
  proof -
    from none have "?hits = []" by (simp add: filter_empty_conv)
    with res have one: "get_transaction e d userId tid = Inl (404, ''Transaction not found'')"
      by simp
    have "filter ?P (filter (\<lambda>t. t_id t \<noteq> tid) (transactions d)) = []"
      by (simp add: filter_empty_conv)
    with up have "get_transaction e (d\<lparr>transactions := filter (\<lambda>t. t_id t \<noteq> tid) (transactions d)\<rparr>)
              userId tid = Inl (404, ''Transaction not found'')"
      by (simp add: get_transaction_def)
    with one show ?thesis by simp
  qed
  show "((\<exists>v. get_transaction e d userId tid = Inr v) \<longleftrightarrow>
        (\<exists>t\<in>set (transactions d). t_id t = tid \<and>
           (t_sender_id t = Some userId \<or> t_recipient_id t = Some userId))) \<and>
     (\<forall>v. get_transaction e d userId tid = Inr v \<longrightarrow>
        v_id v = tid \<and>
        (\<exists>t\<in>set (transactions d). t_id t = tid \<and>
           (t_sender_id t = Some userId \<or> t_recipient_id t = Some userId) \<and>
           v = format_transaction d t)) \<and>
     (\<forall>t\<in>set (transactions d). distinct (map t_id (transactions d)) \<and> t_id t = tid \<and>
           (t_sender_id t = Some userId \<or> t_recipient_id t = Some userId) \<longrightarrow>
        get_transaction e d userId tid = Inr (format_transaction d t)) \<and>
     (\<not> (\<exists>t\<in>set (transactions d). t_id t = tid \<and>
           (t_sender_id t = Some userId \<or> t_recipient_id t = Some userId)) \<longrightarrow>
        get_transaction e d userId tid = Inl (404, ''Transaction not found'') \<and>
        get_transaction e d userId tid
          = get_transaction e (d\<lparr>transactions := filter (\<lambda>t. t_id t \<noteq> tid) (transactions d)\<rparr>)
              userId tid)"
    using a b c dd by blast
qed

theorem get_transaction_for_parties_only_witness:
  "get_transaction (request_env 500 0 0 []) (db funded) 1 10 = Inr deposit_view \<and>
   format_transaction (db funded) deposit_row = deposit_view \<and>
   get_transaction (request_env 500 0 0 []) (db funded) 2 10
     = Inl (404, ''Transaction not found'') \<and>
   get_transaction (request_env 500 0 0 []) (db funded) 2 10
     = get_transaction (request_env 500 0 0 []) ((db funded)\<lparr>transactions := []\<rparr>) 2 10"
proof -
  have up: "\<not> outage (request_env 500 0 0 []) SELECT_transaction"
    by (simp add: example_defs)
  have rows: "transactions (db funded) = [deposit_row]" "t_id deposit_row = 10"
    "t_sender_id deposit_row = Some 1" "t_recipient_id deposit_row = None"
    "format_transaction (db funded) deposit_row = deposit_view"
    by (simp_all add: example_defs more_defs format_transaction_def)
  have gone: "get_transaction (request_env 500 0 0 []) ((db funded)\<lparr>transactions := []\<rparr>) 2 10
      = Inl (404, ''Transaction not found'')"
    by (simp add: get_transaction_def example_defs)
  show ?thesis
    using get_transaction_for_parties_only [where e = "request_env 500 0 0 []"
        and d = "db funded" and userId = 1 and tid = 10]
      get_transaction_for_parties_only [where e = "request_env 500 0 0 []"
        and d = "db funded" and userId = 2 and tid = 10]
      up rows gone
    by simp
qed


subsection \<open>GET /transactions\<close>

lemmas tie_defs = twin_a_def twin_b_def tied_def one_per_page_def

lemma tied_by_requests:
  "tied = snd (add_money (request_env 600 21 0 ''600_bbbb'')
            (snd (add_money (request_env 600 20 0 ''600_aaaa'') registered 1 10000 ''UPI''))
            1 20000 ''Card'')"
  by (simp add: example_defs more_defs tie_defs add_money_def add_money_tx_def query_def
      insert_transaction_def update_balance_def updated_wallets_def add_money_row_def
      numeric_15_2_def references_user_def redis_del_def)

lemma registered_by_requests:
  "registered = snd (register (request_env 200 2 0 [])
                 (snd (register (request_env 100 1 0 []) initial
                    ''alice@example.in'' ''Alice'' ''9000000001''))
                 ''bob@example.in'' ''Bob'' ''9000000002'')"
  by (simp add: example_defs more_defs register_def register_tx_def query_def insert_user_def
      insert_wallet_def numeric_15_2_def)

lemma tied_reachable: "reachable tied"
  unfolding tied_by_requests registered_by_requests
  by (intro reachable.by_add_money reachable.by_register reachable.start)

lemma tied_matching: "matching (db tied) (Suc 0) None = [twin_a, twin_b]"
  by (simp add: matching_def where_clause_def tie_defs)

text \<open>
  C8, as stated, fails: the statement orders by creation time only. Alice's two deposits
  carry the same creation time, so both orders of them are admissible results; with one row
  per page, page 1 may show the deposit with id 20 and page 2 may show it again, while the
  deposit with id 21 is on neither page. The state is reachable by two deposits that begin
  in the same instant.
\<close>

theorem pages_overlap_counterexample:
  "reachable tied \<and>
   get_transactions (request_env 700 0 0 []) (db tied) 1 (one_per_page 1)
     (Inr (transactions_reply (db tied) 1 1 2 [twin_a])) \<and>
   get_transactions (request_env 700 0 0 []) (db tied) 1 (one_per_page 2)
     (Inr (transactions_reply (db tied) 2 1 2 [twin_a])) \<and>
   map v_id (l_transactions (transactions_reply (db tied) 1 1 2 [twin_a])) = [20] \<and>
   map v_id (l_transactions (transactions_reply (db tied) 2 1 2 [twin_a])) = [20] \<and>
   map t_id (matching (db tied) 1 None) = [20, 21]"
proof -
  have up: "\<not> outage (request_env 700 0 0 []) SELECT_transactions"
    "\<not> outage (request_env 700 0 0 []) SELECT_count"
    by (simp_all add: example_defs)
  have ab: "order_by_created_at_desc (matching (db tied) 1 (q_type (one_per_page 1))) [twin_a, twin_b]"
    by (simp add: order_by_created_at_desc_def tied_matching one_per_page_def twin_a_def twin_b_def)
  have ba: "order_by_created_at_desc (matching (db tied) 1 (q_type (one_per_page 2))) [twin_b, twin_a]"
    by (simp add: order_by_created_at_desc_def tied_matching one_per_page_def twin_a_def twin_b_def)
  have p1: "get_transactions (request_env 700 0 0 []) (db tied) 1 (one_per_page 1)
     (Inr (transactions_reply (db tied) 1 1 2 [twin_a]))"
    using get_transactions.page [OF up _ _ _ _ ab, of 1 1]
    by (simp add: one_per_page_def or_default_def tied_matching max_safe_integer_def)
  have p2: "get_transactions (request_env 700 0 0 []) (db tied) 1 (one_per_page 2)
     (Inr (transactions_reply (db tied) 2 1 2 [twin_a]))"
    using get_transactions.page [OF up _ _ _ _ ba, of 1 2]
    by (simp add: one_per_page_def or_default_def tied_matching max_safe_integer_def)
  show ?thesis
    using tied_reachable p1 p2
    by (simp add: tied_matching transactions_reply_def format_transaction_def twin_a_def twin_b_def)
qed


subsection \<open>Pages without ties\<close>

lemma order_by_created_at_desc_unique:
  assumes "order_by_created_at_desc rows ordered"
    and "distinct (map t_created_at rows)"
  shows "ordered = rev (sort_key t_created_at rows)"
proof -
  from assms(1) have ms: "mset ordered = mset rows"
    and desc: "sorted_wrt (\<lambda>a b. t_created_at b \<le> t_created_at a) ordered"
    by (simp_all add: order_by_created_at_desc_def)
  from ms have sets: "set ordered = set rows" by (rule mset_eq_setD)
  from ms have "mset (map t_created_at ordered) = mset (map t_created_at rows)" by simp
  with assms(2) have dist: "distinct (map t_created_at ordered)"
    by (metis mset_eq_imp_distinct_iff)
  have asc: "sorted (map t_created_at (rev ordered))"
    using desc by (simp add: sorted_map sorted_wrt_rev)
  have "map t_created_at (rev ordered) = map t_created_at (sort_key t_created_at rows)"
  proof (rule sorted_distinct_set_unique)
    show "sorted (map t_created_at (rev ordered))" by (rule asc)
    show "distinct (map t_created_at (rev ordered))"
      using dist by (simp add: distinct_map)
    show "sorted (map t_created_at (sort_key t_created_at rows))" by simp
    show "distinct (map t_created_at (sort_key t_created_at rows))"
      using assms(2) by (simp add: distinct_map)
    show "set (map t_created_at (rev ordered)) = set (map t_created_at (sort_key t_created_at rows))"
      using sets by simp
  qed
  moreover have "inj_on t_created_at (set (rev ordered) \<union> set (sort_key t_created_at rows))"
    using assms(2) sets by (simp add: distinct_map)
  ultimately have "rev ordered = sort_key t_created_at rows"
    by (simp add: inj_on_map_eq_map)
  then show ?thesis by (metis rev_rev_ident)
qed

lemma newest_first_is_admissible:
  "order_by_created_at_desc rows (rev (sort_key t_created_at rows))"
  using sorted_sort_key [of t_created_at rows]
  by (simp add: order_by_created_at_desc_def sorted_wrt_rev sorted_map)

lemma pages_concat:
  "concat (map (\<lambda>p. take l (drop ((p - 1) * l) ys)) [1..<Suc k]) = take (k * l) ys"
proof (induction k)
  case 0
  show ?case by simp
next
  case (Suc k)
  have "take (k * l) ys @ take l (drop (k * l) ys) = take (k * l + l) ys"
    by (simp add: take_add)
  with Suc show ?case by (simp add: add.commute)
qed

lemma concat_map_map: "concat (map (\<lambda>p. map f (g p)) xs) = map f (concat (map g xs))"
  by (induction xs) simp_all

lemma get_transactions_page_rows:
  assumes "get_transactions e d userId \<lparr>q_page = Some (int p), q_limit = Some limit, q_type = ty\<rparr>
             (Inr reply)"
    and "0 < p" and "0 < limit"
  obtains ordered where "order_by_created_at_desc (matching d userId ty) ordered"
    and "l_transactions reply
           = map (format_transaction d) (take (nat limit) (drop ((p - 1) * nat limit) ordered))"
  using assms(1)
proof (cases rule: get_transactions.cases)
  case (page limit' page' ordered)
  from page(4,5) assms(2,3) have lp: "limit' = limit" "page' = int p"
    by (simp_all add: or_default_def)
  from assms(2) have "nat ((int p - 1) * limit) = (p - 1) * nat limit"
    by (simp add: nat_mult_distrib nat_diff_distrib')
  with page(1,8) lp that [of ordered] show ?thesis
    by (simp add: transactions_reply_def)
qed

lemma page_sorted_and_sized:
  assumes "get_transactions e d userId \<lparr>q_page = Some (int p), q_limit = Some limit, q_type = ty\<rparr>
             (Inr reply)"
    and "0 < p" and "0 < limit"
  shows "sorted_wrt (\<lambda>a b. v_createdAt b \<le> v_createdAt a) (l_transactions reply)"
    and "length (l_transactions reply)
           = min (nat limit) (length (matching d userId ty) - (p - 1) * nat limit)"
proof -
  from assms obtain ordered where
    ord: "order_by_created_at_desc (matching d userId ty) ordered"
    and rows: "l_transactions reply
           = map (format_transaction d) (take (nat limit) (drop ((p - 1) * nat limit) ordered))"
    by (rule get_transactions_page_rows)
  from ord have ms: "mset ordered = mset (matching d userId ty)"
    and desc: "sorted_wrt (\<lambda>a b. t_created_at b \<le> t_created_at a) ordered"
    by (simp_all add: order_by_created_at_desc_def)
  have "sorted_wrt (\<lambda>a b. t_created_at b \<le> t_created_at a)
          (take (nat limit) (drop ((p - 1) * nat limit) ordered))"
    using desc by (intro sorted_wrt_take sorted_wrt_drop)
  then show "sorted_wrt (\<lambda>a b. v_createdAt b \<le> v_createdAt a) (l_transactions reply)"
    by (simp add: rows sorted_wrt_map format_transaction_def)
  from ms have "length ordered = length (matching d userId ty)" by (rule mset_eq_length)
  then show "length (l_transactions reply)
           = min (nat limit) (length (matching d userId ty) - (p - 1) * nat limit)"
    by (simp add: rows min.commute)
qed

text \<open>
  C8, amended. The rows are ordered by creation time descending and by nothing else. For a
  positive limit every page is in descending order of creation time and holds limit rows, or
  what is left of the selected rows after the pages before it. When the selected rows have
  pairwise distinct creation times the result is determined: page p is rows (p - 1) * limit
  up to p * limit of the list sorted newest first, the pages 1 to k put one after another
  are its first k * limit rows, and once k * limit reaches the number of selected rows they
  are the whole list, every row once and in order.
\<close>

theorem pages_newest_first:
  assumes "0 < limit"
    and "\<forall>p\<in>{1..k}. get_transactions e d userId
            \<lparr>q_page = Some (int p), q_limit = Some limit, q_type = ty\<rparr> (Inr (reply p))"
  shows "(\<forall>p\<in>{1..k}.
            sorted_wrt (\<lambda>a b. v_createdAt b \<le> v_createdAt a) (l_transactions (reply p)) \<and>
            length (l_transactions (reply p))
              = min (nat limit) (length (matching d userId ty) - (p - 1) * nat limit)) \<and>
         (distinct (map t_created_at (matching d userId ty)) \<longrightarrow>
            (\<forall>p\<in>{1..k}. l_transactions (reply p)
               = map (format_transaction d)
                   (take (nat limit) (drop ((p - 1) * nat limit)
                      (rev (sort_key t_created_at (matching d userId ty)))))) \<and>
            concat (map (\<lambda>p. l_transactions (reply p)) [1..<Suc k])
               = map (format_transaction d)
                   (take (k * nat limit) (rev (sort_key t_created_at (matching d userId ty)))) \<and>
            (length (matching d userId ty) \<le> k * nat limit \<longrightarrow>
               concat (map (\<lambda>p. l_transactions (reply p)) [1..<Suc k])
                 = map (format_transaction d)
                     (rev (sort_key t_created_at (matching d userId ty)))))"
proof -
  let ?newest = "rev (sort_key t_created_at (matching d userId ty))"
  have got: "get_transactions e d userId
            \<lparr>q_page = Some (int p), q_limit = Some limit, q_type = ty\<rparr> (Inr (reply p))"
    and pos: "0 < p" if "p \<in> {1..k}" for p
    using that assms(2) by auto
  have general: "sorted_wrt (\<lambda>a b. v_createdAt b \<le> v_createdAt a) (l_transactions (reply p)) \<and>
            length (l_transactions (reply p))
              = min (nat limit) (length (matching d userId ty) - (p - 1) * nat limit)"
    if "p \<in> {1..k}" for p
    using page_sorted_and_sized [OF got [OF that] pos [OF that] assms(1)] by simp
  have exact: "(\<forall>p\<in>{1..k}. l_transactions (reply p)
               = map (format_transaction d)
                   (take (nat limit) (drop ((p - 1) * nat limit) ?newest))) \<and>
            concat (map (\<lambda>p. l_transactions (reply p)) [1..<Suc k])
               = map (format_transaction d) (take (k * nat limit) ?newest) \<and>
            (length (matching d userId ty) \<le> k * nat limit \<longrightarrow>
               concat (map (\<lambda>p. l_transactions (reply p)) [1..<Suc k])
                 = map (format_transaction d) ?newest)"
    if dist: "distinct (map t_created_at (matching d userId ty))"
  proof -
    have each: "l_transactions (reply p)
        = map (format_transaction d) (take (nat limit) (drop ((p - 1) * nat limit) ?newest))"
      if p: "p \<in> {1..k}" for p
    proof -
      from got [OF p] pos [OF p] assms(1) obtain ordered where
        ord: "order_by_created_at_desc (matching d userId ty) ordered"
        and rows: "l_transactions (reply p)
             = map (format_transaction d) (take (nat limit) (drop ((p - 1) * nat limit) ordered))"
        by (rule get_transactions_page_rows)
      from ord dist have "ordered = ?newest" by (rule order_by_created_at_desc_unique)
      with rows show ?thesis by simp
    qed
    have "map (\<lambda>p. l_transactions (reply p)) [1..<Suc k]
        = map (\<lambda>p. map (format_transaction d)
                 (take (nat limit) (drop ((p - 1) * nat limit) ?newest))) [1..<Suc k]"
    proof (rule map_cong [OF refl])
      fix p assume "p \<in> set [1..<Suc k]"
      then have "p \<in> {1..k}" by auto
      then show "l_transactions (reply p)
        = map (format_transaction d) (take (nat limit) (drop ((p - 1) * nat limit) ?newest))"
        by (rule each)
    qed
    then have "concat (map (\<lambda>p. l_transactions (reply p)) [1..<Suc k])
        = concat (map (\<lambda>p. map (format_transaction d)
                 (take (nat limit) (drop ((p - 1) * nat limit) ?newest))) [1..<Suc k])"
      by (rule arg_cong)
    also have "\<dots> = map (format_transaction d)
            (concat (map (\<lambda>p. take (nat limit) (drop ((p - 1) * nat limit) ?newest))
               [1..<Suc k]))"
      by (rule concat_map_map)
    also have "\<dots> = map (format_transaction d) (take (k * nat limit) ?newest)"
      by (simp only: pages_concat)
    finally have all: "concat (map (\<lambda>p. l_transactions (reply p)) [1..<Suc k])
        = map (format_transaction d) (take (k * nat limit) ?newest)" .
    have "length ?newest = length (matching d userId ty)" by simp
    then have "take (k * nat limit) ?newest = ?newest"
      if "length (matching d userId ty) \<le> k * nat limit"
      using that by simp
    with each all show ?thesis by simp
  qed
  from general exact show ?thesis by blast
qed

text \<open>Fifteen rows, ten per page: the pages hold ten and five rows, newest first.\<close>

lemma busy_matching: "matching busy (Suc 0) None = map nth_deposit [0..<15]"
proof -
  have "filter (where_clause (Suc 0) None) (map nth_deposit xs) = map nth_deposit xs" for xs
    by (induction xs) (simp_all add: where_clause_def nth_deposit_def)
  then show ?thesis by (simp only: matching_def busy_def database.simps)
qed

lemma busy_distinct: "distinct (map t_created_at (map nth_deposit [0..<15]))"
proof -
  have "map t_created_at (map nth_deposit xs) = map (\<lambda>i. 1000 + i) xs" for xs
    by (induction xs) (simp_all add: nth_deposit_def)
  then show ?thesis by (simp only: distinct_map) (simp add: inj_on_def)
qed

lemma busy_order:
  "order_by_created_at_desc (map nth_deposit [0..<15]) (rev (map nth_deposit [0..<15]))"
proof -
  have "sorted_wrt (\<lambda>a b. t_created_at a \<le> t_created_at b) (map nth_deposit [0..<n])" for n
    using sorted_upt [of 0 n] by (simp only: sorted_wrt_map) (simp add: nth_deposit_def)
  then show ?thesis
    by (simp only: order_by_created_at_desc_def sorted_wrt_rev mset_rev)
qed

lemma busy_sorted:
  "rev (sort_key t_created_at (map nth_deposit [0..<15])) = rev (map nth_deposit [0..<15])"
  using order_by_created_at_desc_unique [OF busy_order busy_distinct] by simp


theorem pages_newest_first_witness:
  "distinct (map t_created_at (matching busy 1 None)) \<and>
   length (matching busy 1 None) = 15 \<and>
   get_transactions (request_env 2000 0 0 []) busy 1
     \<lparr>q_page = Some 1, q_limit = Some 10, q_type = None\<rparr> (Inr (busy_page 1)) \<and>
   get_transactions (request_env 2000 0 0 []) busy 1
     \<lparr>q_page = Some 2, q_limit = Some 10, q_type = None\<rparr> (Inr (busy_page 2)) \<and>
   length (l_transactions (busy_page 1)) = 10 \<and>
   length (l_transactions (busy_page 2)) = 5 \<and>
   sorted_wrt (\<lambda>a b. v_createdAt b \<le> v_createdAt a) (l_transactions (busy_page 1)) \<and>
   l_transactions (busy_page 1) @ l_transactions (busy_page 2)
     = map (format_transaction busy) (rev (map nth_deposit [0..<15]))"
proof -
  have up: "\<not> outage (request_env 2000 0 0 []) SELECT_transactions"
    "\<not> outage (request_env 2000 0 0 []) SELECT_count"
    by (simp_all add: example_defs)
  have ord: "order_by_created_at_desc
      (matching busy 1 (q_type \<lparr>q_page = Some (int p), q_limit = Some 10, q_type = None\<rparr>))
      (rev (map nth_deposit [0..<15]))" for p
    using busy_order by (simp add: busy_matching)
  have page: "get_transactions (request_env 2000 0 0 []) busy 1
     \<lparr>q_page = Some (int p), q_limit = Some 10, q_type = None\<rparr> (Inr (busy_page p))"
    if "p = 1 \<or> p = 2" for p
    using get_transactions.page [OF up _ _ _ _ ord [of p], of 10 "int p"] that
    by (auto simp: or_default_def busy_matching busy_page_def max_safe_integer_def)
  have all: "\<forall>p\<in>{1..2}. get_transactions (request_env 2000 0 0 []) busy 1
      \<lparr>q_page = Some (int p), q_limit = Some 10, q_type = None\<rparr> (Inr (busy_page p))"
  proof
    fix p :: nat assume "p \<in> {1..2}"
    then have "p = 1 \<or> p = 2" by auto
    then show "get_transactions (request_env 2000 0 0 []) busy 1
      \<lparr>q_page = Some (int p), q_limit = Some 10, q_type = None\<rparr> (Inr (busy_page p))"
      by (rule page)
  qed
  have dist: "distinct (map t_created_at (matching busy 1 None))"
    using busy_distinct by (simp add: busy_matching)
  have len: "length (matching busy 1 None) = 15" by (simp add: busy_matching)
  have cat: "concat (map (\<lambda>p. l_transactions (busy_page p)) [1..<Suc 2])
      = l_transactions (busy_page 1) @ l_transactions (busy_page 2)"
    by (simp add: upt_rec numeral_2_eq_2)
  have newest: "rev (sort_key t_created_at (matching busy 1 None)) = rev (map nth_deposit [0..<15])"
    using busy_sorted by (simp add: busy_matching)
  note inst = pages_newest_first [OF _ all]
  from inst dist have "length (matching busy 1 None) \<le> 2 * nat 10 \<longrightarrow>
     concat (map (\<lambda>p. l_transactions (busy_page p)) [1..<Suc 2])
       = map (format_transaction busy) (rev (sort_key t_created_at (matching busy 1 None)))"
    by simp
  with len cat newest have whole: "l_transactions (busy_page 1) @ l_transactions (busy_page 2)
     = map (format_transaction busy) (rev (map nth_deposit [0..<15]))"
    by simp
  from inst have each: "sorted_wrt (\<lambda>a b. v_createdAt b \<le> v_createdAt a) (l_transactions (busy_page p)) \<and>
      length (l_transactions (busy_page p))
        = min (nat 10) (length (matching busy 1 None) - (p - 1) * nat 10)"
    if "p \<in> {1..2}" for p
    using that by simp
  from each [of 1] each [of 2] len
  have sizes: "length (l_transactions (busy_page 1)) = 10"
    "length (l_transactions (busy_page 2)) = 5"
    "sorted_wrt (\<lambda>a b. v_createdAt b \<le> v_createdAt a) (l_transactions (busy_page 1))"
    by simp_all
  with dist len page [of 1] page [of 2] whole show ?thesis by simp
qed


end
